theory Spec2Isabelle
  imports Complex_Main "HOL-Library.Sublist"
begin

section \<open>The hand-off script \<^verbatim>\<open>src/main.py\<close>\<close>

text \<open>
  The repository is one Python script. It reads an API key from the process environment,
  builds a client, a model handle, three agents and one hand-off object of an external
  agent framework, starts one blocking run and prints two reports. The script is
  straight-line code: every top-level statement becomes one function on the module's
  state (its global names, the process environment and the console), in the order of the
  file, and \<open>main\<close> runs them one after the other until one raises.

  The framework, the .env loader, the console library and the model API are not part of
  the repository. What the script cannot decide itself is a parameter (\<open>world\<close>): what
  loading the .env file does to the environment, what \<open>rich.print\<close> writes or raises for
  the texts it is given, and what the run does: which of the script's functions it calls
  on the way, and whether it returns or raises.
\<close>

subsection \<open>Values\<close>

text \<open>A Python exception: its class and its message.\<close>

datatype exn = Exn (exn_class: string) (exn_message: string)

text \<open>
  JSON values as Python holds them (\<open>dict\<close>, \<open>list\<close>, \<open>str\<close>, numbers, \<open>bool\<close>,
  \<open>None\<close>). A \<open>dict\<close> keeps its keys in insertion order: an association list.
\<close>

datatype json =
    JNull
  | JBool bool
  | JNum rat
  | JStr string
  | JArr "json list"
  | JObj "(string \<times> json) list"

type_synonym dict = "(string \<times> json) list"

text \<open>\<open>d[k] = v\<close> on a \<open>dict\<close>: an existing key keeps its place, a new one goes last.\<close>

fun dict_set :: "string \<Rightarrow> json \<Rightarrow> dict \<Rightarrow> dict" where
  "dict_set k v [] = [(k, v)]"
| "dict_set k v ((k', v') # kvs) =
     (if k' = k then (k, v) # kvs else (k', v') # dict_set k v kvs)"

text \<open>
  \<open>AsyncOpenAI(api_key=..., base_url=...)\<close>, lines 39-42. \<open>api_key\<close> has the type of
  what \<open>os.getenv\<close> returns (a string or Python's \<open>None\<close>).
\<close>

record AsyncOpenAI =
  api_key :: "string option"
  base_url :: string

text \<open>\<open>OpenAIChatCompletionsModel(model=..., openai_client=...)\<close>, lines 49-52.\<close>

record OpenAIChatCompletionsModel =
  model_id :: string
  openai_client :: AsyncOpenAI

text \<open>
  The two functions the script defines and hands to the framework by reference
  (lines 116 and 118).
\<close>

datatype invoke_fn = Fn_my_invoke_function

datatype enable_fn = Fn_my_enable_func

text \<open>\<open>Handoff(...)\<close>, lines 111-119, with the seven keyword arguments the script gives.\<close>

record Handoff =
  agent_name :: string
  tool_name :: string
  tool_description :: string
  input_json_schema :: dict
  on_invoke_handoff :: invoke_fn
  strict_json_schema :: bool
  is_enabled :: enable_fn

text \<open>
  \<open>Agent(...)\<close>, lines 59-64, 71-75 and 126-131. \<open>handoff_description\<close> defaults to
  \<open>None\<close> and \<open>handoffs\<close> to the empty list; an entry of \<open>handoffs\<close> is an agent or a
  hand-off object (line 130 gives one of each).
\<close>

datatype agent =
  Agent (name: string) (instructions: string) (agent_model: OpenAIChatCompletionsModel)
    (handoff_description: "string option") (handoffs: "handoff_entry list")
and handoff_entry = To_agent agent | To_handoff Handoff

text \<open>
  What the script reads of the run's result (lines 145-146): \<open>final_output\<close> and the name
  of \<open>_last_agent\<close>.
\<close>

record RunResult =
  final_output :: string
  last_agent :: agent

text \<open>A Pydantic model class: its name and its annotated fields (lines 82-83).\<close>

datatype annotation = Ann_str | Ann_int | Ann_float | Ann_bool

record BaseModel =
  class_name :: string
  class_fields :: "(string \<times> annotation) list"

subsection \<open>The outside world\<close>

text \<open>
  \<open>os.environ\<close>: a variable is unset (\<open>None\<close>) or set to a string, possibly the empty
  one.
\<close>

type_synonym env = "string \<Rightarrow> string option"

text \<open>
  A run of the framework, as the script meets it. \<open>Runner.run_sync\<close> returns a result or
  raises, and before that it may call the two functions the script gave it in a hand-off
  object: it calls \<open>is_enabled\<close> and goes on with the answer, or awaits
  \<open>on_invoke_handoff\<close> with an input text and goes on with what that returned or raised.
  How often it does so, with which texts, and what it makes of an exception of the
  function, is the framework's choice.
\<close>

datatype run =
    Returns RunResult
  | Raises exn
  | Asks_enabled Handoff agent "bool \<Rightarrow> run"
  | Invokes_handoff Handoff string "exn + agent \<Rightarrow> run"

text \<open>
  The parts of a run of the script that the script does not decide: \<open>load_dotenv\<close> is the
  effect of \<open>load_dotenv()\<close> on the environment; \<open>rich_print\<close> is what \<open>rich.print\<close>
  does with the texts it is given, on the console of this process: the text it writes
  (\<open>Inr\<close>), or the exception it raises and writes nothing (\<open>Inl\<close>); \<open>run_sync\<close> is what
  \<open>Runner.run_sync\<close> does with the agent, the input and the turn limit it is given.

  \<open>rich.print\<close> reads console markup in its texts: it takes tags in square brackets as
  styles and leaves them out, replaces emoji codes, breaks lines at the width of the
  console, and raises \<open>MarkupError\<close> at a closing tag that closes nothing.
\<close>

record world =
  load_dotenv :: "env \<Rightarrow> env"
  rich_print :: "string list \<Rightarrow> exn + string"
  run_sync :: "agent \<Rightarrow> string \<Rightarrow> int \<Rightarrow> run"

text \<open>
  What the script does that is visible outside it, in order: the calls into the libraries.
  A call of \<open>rich.print\<close> keeps the line of the file it is made at and the texts of its
  arguments.
\<close>

datatype site = Line_95 | Line_145 | Line_146

datatype event =
    Call_load_dotenv
  | Call_enable_verbose_stdout_logging
  | Call_set_tracing_disabled bool
  | Call_getenv string
  | New_AsyncOpenAI AsyncOpenAI
  | New_OpenAIChatCompletionsModel OpenAIChatCompletionsModel
  | New_Agent agent
  | Call_model_json_schema BaseModel
  | New_Handoff Handoff
  | Call_run_sync agent string int
  | Print site "string list"

subsection \<open>The module's state\<close>

text \<open>
  The module's global names (\<open>None\<close>: not bound yet), the process environment, the events
  so far and the text \<open>rich.print\<close> has written to the console so far. \<open>gemini_api_key\<close>
  is bound to what \<open>os.getenv\<close> returned, a string or Python's \<open>None\<close>.
\<close>

record state =
  environ :: env
  gemini_api_key :: "string option option"
  external_client :: "AsyncOpenAI option"
  model :: "OpenAIChatCompletionsModel option"
  billing_agent :: "agent option"
  refund_agent :: "agent option"
  Model_refund :: "BaseModel option"
  my_schema :: "dict option"
  refund_agent_handoff :: "Handoff option"
  main_agent :: "agent option"
  result :: "RunResult option"
  trace :: "event list"
  console :: string

definition initial :: "env \<Rightarrow> state" where
  "initial e =
     \<lparr>environ = e, gemini_api_key = None, external_client = None, model = None,
      billing_agent = None, refund_agent = None, Model_refund = None, my_schema = None,
      refund_agent_handoff = None, main_agent = None, result = None, trace = [],
      console = []\<rparr>"

definition emit :: "event \<Rightarrow> state \<Rightarrow> state" where
  "emit ev s = s\<lparr>trace := trace s @ [ev]\<rparr>"

text \<open>Reading a global name that is not bound raises \<open>NameError\<close>.\<close>

definition NameError :: "string \<Rightarrow> exn" where
  "NameError x = Exn ''NameError'' (''name '' @ [CHR 0x27] @ x @ [CHR 0x27] @ '' is not defined'')"

text \<open>
  A statement runs on the state and either completes (\<open>None\<close>) or raises (\<open>Some e\<close>);
  the state it leaves is returned in both cases.
\<close>

type_synonym stmt = "state \<Rightarrow> exn option \<times> state"

text \<open>Statements in sequence: the first exception ends the script.\<close>

fun exec :: "stmt list \<Rightarrow> state \<Rightarrow> exn option \<times> state" where
  "exec [] s = (None, s)"
| "exec (st # rest) s =
     (case st s of
        (Some e, s') \<Rightarrow> (Some e, s')
      | (None, s') \<Rightarrow> exec rest s')"

subsection \<open>The functions the script defines\<close>

text \<open>
  The labels of the three prints start with an emoji; a Python \<open>str\<close> is kept here as its
  UTF-8 bytes.
\<close>

definition rocket :: string where
  "rocket = [CHR 0xF0, CHR 0x9F, CHR 0x9A, CHR 0x80]"

definition check_mark :: string where
  "check_mark = [CHR 0xE2, CHR 0x9C, CHR 0x85]"

definition robot :: string where
  "robot = [CHR 0xF0, CHR 0x9F, CHR 0xA4, CHR 0x96]"

text \<open>
  A call of \<open>rich.print\<close> at a line of the file: the call is an event; the text is
  written when the call returns, and nothing is written when it raises.
\<close>

definition call_rich_print :: "world \<Rightarrow> site \<Rightarrow> string list \<Rightarrow> state \<Rightarrow> exn option \<times> state" where
  "call_rich_print w l args s =
     (case rich_print w args of
        Inl x \<Rightarrow> (Some x, emit (Print l args) s)
      | Inr txt \<Rightarrow> (None, (emit (Print l args) s)\<lparr>console := console s @ txt\<rparr>))"

text \<open>
  Lines 94-96. The function is a coroutine function; this is what awaiting its call does:
  it prints the label and the payload and, when the print returned, returns what the
  global name \<open>refund_agent\<close> is bound to at that moment. An exception of the print ends
  the function before line 96.
\<close>

definition my_invoke_function :: "world \<Rightarrow> 'ctx \<Rightarrow> string \<Rightarrow> state \<Rightarrow> (exn + agent) \<times> state" where
  "my_invoke_function w ctx input s =
     (case call_rich_print w Line_95 [rocket @ '' Received handoff input:'', input] s of
        (Some x, s') \<Rightarrow> (Inl x, s')
      | (None, s') \<Rightarrow>
          (case refund_agent s' of
             None \<Rightarrow> (Inl (NameError ''refund_agent''), s')
           | Some a \<Rightarrow> (Inr a, s')))"

text \<open>Lines 103-104.\<close>

definition my_enable_func :: "'ctx \<Rightarrow> agent \<Rightarrow> bool" where
  "my_enable_func ctx a = True"

text \<open>Calling the function a hand-off object holds in \<open>is_enabled\<close>, and awaiting the one
  it holds in \<open>on_invoke_handoff\<close>.\<close>

fun call_is_enabled :: "enable_fn \<Rightarrow> 'ctx \<Rightarrow> agent \<Rightarrow> bool" where
  "call_is_enabled Fn_my_enable_func ctx a = my_enable_func ctx a"

fun call_on_invoke_handoff ::
  "invoke_fn \<Rightarrow> world \<Rightarrow> 'ctx \<Rightarrow> string \<Rightarrow> state \<Rightarrow> (exn + agent) \<times> state" where
  "call_on_invoke_handoff Fn_my_invoke_function w ctx input s = my_invoke_function w ctx input s"

text \<open>
  A run carried out: the script's functions are called where the run calls them, on the
  state of the module at that moment, and the run goes on with their answers. The run
  context the framework passes is not read by either function; it is \<open>()\<close> here.
\<close>

primrec carry_out :: "world \<Rightarrow> run \<Rightarrow> state \<Rightarrow> (exn + RunResult) \<times> state" where
  "carry_out w (Returns r) s = (Inr r, s)"
| "carry_out w (Raises x) s = (Inl x, s)"
| "carry_out w (Asks_enabled h a k) s = carry_out w (k (call_is_enabled (is_enabled h) () a)) s"
| "carry_out w (Invokes_handoff h input k) s =
     (case call_on_invoke_handoff (on_invoke_handoff h) w () input s of
        (res, s') \<Rightarrow> carry_out w (k res) s')"

text \<open>\<open>Runner.run_sync(agent, input=..., max_turns=...)\<close>: the call is an event, then the run.\<close>

definition Runner_run_sync ::
  "world \<Rightarrow> agent \<Rightarrow> string \<Rightarrow> int \<Rightarrow> state \<Rightarrow> (exn + RunResult) \<times> state" where
  "Runner_run_sync w a input max_turns s =
     carry_out w (run_sync w a input max_turns) (emit (Call_run_sync a input max_turns) s)"

subsection \<open>The hand-off schema: Pydantic and JSON Schema\<close>

text \<open>
  Modelled from the spec: \<open>BaseModel.model_json_schema\<close> belongs to the Pydantic library,
  which is not part of the repository. The spec describes its result for the class of
  line 82 as a schema with one string field; this is the \<open>dict\<close> Pydantic documents for a
  class whose fields are required and annotated with \<open>str\<close>, \<open>int\<close>, \<open>float\<close> or
  \<open>bool\<close>: \<open>properties\<close> (per field its title and JSON type), \<open>required\<close>, \<open>title\<close>
  and \<open>type\<close>. A field's title is its name in title case, underscores as spaces.
\<close>

definition lowers :: string where
  "lowers = ''abcdefghijklmnopqrstuvwxyz''"

definition uppers :: string where
  "uppers = ''ABCDEFGHIJKLMNOPQRSTUVWXYZ''"

definition to_upper :: "char \<Rightarrow> char" where
  "to_upper c = (case map_of (zip lowers uppers) c of Some u \<Rightarrow> u | None \<Rightarrow> c)"

definition to_lower :: "char \<Rightarrow> char" where
  "to_lower c = (case map_of (zip uppers lowers) c of Some l \<Rightarrow> l | None \<Rightarrow> c)"

definition is_letter :: "char \<Rightarrow> bool" where
  "is_letter c = (List.member lowers c \<or> List.member uppers c)"

text \<open>\<open>str.title()\<close>; the flag says whether the character before was a letter.\<close>

fun title_from :: "bool \<Rightarrow> string \<Rightarrow> string" where
  "title_from after_letter [] = []"
| "title_from after_letter (c # cs) =
     (if is_letter c
      then (if after_letter then to_lower c else to_upper c) # title_from True cs
      else c # title_from False cs)"

definition field_title :: "string \<Rightarrow> string" where
  "field_title f = map (\<lambda>c. if c = CHR ''_'' then CHR '' '' else c) (title_from False f)"

fun json_type :: "annotation \<Rightarrow> string" where
  "json_type Ann_str = ''string''"
| "json_type Ann_int = ''integer''"
| "json_type Ann_float = ''number''"
| "json_type Ann_bool = ''boolean''"

definition field_schema :: "string \<times> annotation \<Rightarrow> string \<times> json" where
  "field_schema fa =
     (fst fa, JObj [(''title'', JStr (field_title (fst fa))), (''type'', JStr (json_type (snd fa)))])"

definition model_json_schema :: "BaseModel \<Rightarrow> dict" where
  "model_json_schema c =
     [(''properties'', JObj (map field_schema (class_fields c))),
      (''required'', JArr (map (\<lambda>fa. JStr (fst fa)) (class_fields c))),
      (''title'', JStr (class_name c)),
      (''type'', JStr ''object'')]"

text \<open>
  Modelled from the spec: the spec says the schema is "used to validate the payload" and
  "must reject additional properties"; the validator is the framework's and the model
  API's, not the repository's. This is JSON Schema validation for the keywords the
  schema of this script has: \<open>type\<close>, \<open>required\<close>, \<open>properties\<close> (each property checked
  against the \<open>type\<close> of its own schema) and \<open>additionalProperties\<close>. \<open>title\<close> is an
  annotation and constrains nothing.
\<close>

fun is_integral :: "rat \<Rightarrow> bool" where
  "is_integral r = (snd (quotient_of r) = 1)"

fun json_has_type :: "string \<Rightarrow> json \<Rightarrow> bool" where
  "json_has_type t JNull = (t = ''null'')"
| "json_has_type t (JBool b) = (t = ''boolean'')"
| "json_has_type t (JNum r) = (t = ''number'' \<or> (t = ''integer'' \<and> is_integral r))"
| "json_has_type t (JStr x) = (t = ''string'')"
| "json_has_type t (JArr xs) = (t = ''array'')"
| "json_has_type t (JObj kvs) = (t = ''object'')"

definition type_ok :: "dict \<Rightarrow> json \<Rightarrow> bool" where
  "type_ok schema v =
     (case map_of schema ''type'' of
        Some (JStr t) \<Rightarrow> json_has_type t v
      | _ \<Rightarrow> True)"

definition has_key :: "dict \<Rightarrow> string \<Rightarrow> bool" where
  "has_key d k = (map_of d k \<noteq> None)"

text \<open>The sub-schemas under \<open>properties\<close> (none when the keyword is absent).\<close>

definition schema_properties :: "dict \<Rightarrow> dict" where
  "schema_properties schema =
     (case map_of schema ''properties'' of
        Some (JObj props) \<Rightarrow> props
      | _ \<Rightarrow> [])"

definition required_ok :: "dict \<Rightarrow> dict \<Rightarrow> bool" where
  "required_ok schema payload =
     (case map_of schema ''required'' of
        Some (JArr rs) \<Rightarrow>
          list_all (\<lambda>r. case r of JStr k \<Rightarrow> has_key payload k | _ \<Rightarrow> True) rs
      | _ \<Rightarrow> True)"

definition property_ok :: "dict \<Rightarrow> string \<times> json \<Rightarrow> bool" where
  "property_ok props kv =
     (case map_of props (fst kv) of
        Some (JObj sub) \<Rightarrow> type_ok sub (snd kv)
      | _ \<Rightarrow> True)"

definition additional_ok :: "dict \<Rightarrow> dict \<Rightarrow> bool" where
  "additional_ok schema payload =
     (case map_of schema ''additionalProperties'' of
        Some (JBool False) \<Rightarrow> list_all (\<lambda>kv. has_key (schema_properties schema) (fst kv)) payload
      | _ \<Rightarrow> True)"

fun validates :: "dict \<Rightarrow> json \<Rightarrow> bool" where
  "validates schema (JObj payload) =
     (type_ok schema (JObj payload) \<and> required_ok schema payload \<and>
      list_all (property_ok (schema_properties schema)) payload \<and>
      additional_ok schema payload)"
| "validates schema v = type_ok schema v"

subsection \<open>The console\<close>

text \<open>The lines of a text are counted by its line breaks.\<close>

definition newline :: char where
  "newline = CHR 0x0A"


subsection \<open>The statements of the script, in the order of the file\<close>

text \<open>Python's truth value of what \<open>os.getenv\<close> returns: \<open>None\<close> and \<open>""\<close> are false.\<close>

fun truthy :: "string option \<Rightarrow> bool" where
  "truthy None = False"
| "truthy (Some v) = (v \<noteq> [])"

text \<open>Line 21: \<open>load_dotenv()\<close>.\<close>

definition line_21 :: "world \<Rightarrow> stmt" where
  "line_21 w s = (None, emit Call_load_dotenv (s\<lparr>environ := load_dotenv w (environ s)\<rparr>))"

text \<open>Line 24: \<open>enable_verbose_stdout_logging()\<close>.\<close>

definition line_24 :: stmt where
  "line_24 s = (None, emit Call_enable_verbose_stdout_logging s)"

text \<open>Line 27: \<open>set_tracing_disabled(disabled=True)\<close>.\<close>

definition line_27 :: stmt where
  "line_27 s = (None, emit (Call_set_tracing_disabled True) s)"

text \<open>Line 30: \<open>gemini_api_key = os.getenv("GEMINI_API_KEY")\<close>.\<close>

definition line_30 :: stmt where
  "line_30 s =
     (None, emit (Call_getenv ''GEMINI_API_KEY'')
              (s\<lparr>gemini_api_key := Some (environ s ''GEMINI_API_KEY'')\<rparr>))"

text \<open>Lines 31-32: \<open>if not gemini_api_key: raise Exception("GEMINI_API_KEY is not set in .env file")\<close>.\<close>

definition line_31 :: stmt where
  "line_31 s =
     (case gemini_api_key s of
        None \<Rightarrow> (Some (NameError ''gemini_api_key''), s)
      | Some k \<Rightarrow>
          if \<not> truthy k then (Some (Exn ''Exception'' ''GEMINI_API_KEY is not set in .env file''), s)
          else (None, s))"

text \<open>Lines 39-42: \<open>external_client = AsyncOpenAI(api_key=gemini_api_key, base_url=...)\<close>.\<close>

definition line_39 :: stmt where
  "line_39 s =
     (case gemini_api_key s of
        None \<Rightarrow> (Some (NameError ''gemini_api_key''), s)
      | Some k \<Rightarrow>
          (let c = \<lparr>api_key = k,
                    base_url = ''https://generativelanguage.googleapis.com/v1beta/openai/''\<rparr>
           in (None, emit (New_AsyncOpenAI c) (s\<lparr>external_client := Some c\<rparr>))))"

text \<open>Lines 49-52: \<open>model = OpenAIChatCompletionsModel(model="gemini-2.0-flash", openai_client=external_client)\<close>.\<close>

definition line_49 :: stmt where
  "line_49 s =
     (case external_client s of
        None \<Rightarrow> (Some (NameError ''external_client''), s)
      | Some c \<Rightarrow>
          (let m = \<lparr>model_id = ''gemini-2.0-flash'', openai_client = c\<rparr>
           in (None, emit (New_OpenAIChatCompletionsModel m) (s\<lparr>model := Some m\<rparr>))))"

text \<open>Lines 59-64: \<open>billing_agent = Agent(...)\<close>.\<close>

definition line_59 :: stmt where
  "line_59 s =
     (case model s of
        None \<Rightarrow> (Some (NameError ''model''), s)
      | Some m \<Rightarrow>
          (let a = Agent ''billing_agent''
                     ''You handle all billing-related inquiries. Provide clear and concise information regarding billing issues.''
                     m (Some ''You support the user in billing issues.'') []
           in (None, emit (New_Agent a) (s\<lparr>billing_agent := Some a\<rparr>))))"

text \<open>Lines 71-75: \<open>refund_agent = Agent(...)\<close>.\<close>

definition line_71 :: stmt where
  "line_71 s =
     (case model s of
        None \<Rightarrow> (Some (NameError ''model''), s)
      | Some m \<Rightarrow>
          (let a = Agent ''refund_agent''
                     ''You handle all refund-related processes. Assist users in processing refunds efficiently.''
                     m None []
           in (None, emit (New_Agent a) (s\<lparr>refund_agent := Some a\<rparr>))))"

text \<open>Lines 82-83: \<open>class Model_refund(BaseModel): input: str\<close>.\<close>

definition line_82 :: stmt where
  "line_82 s =
     (None, s\<lparr>Model_refund := Some \<lparr>class_name = ''Model_refund'', class_fields = [(''input'', Ann_str)]\<rparr>\<rparr>)"

text \<open>Line 86: \<open>my_schema = Model_refund.model_json_schema()\<close>.\<close>

definition line_86 :: stmt where
  "line_86 s =
     (case Model_refund s of
        None \<Rightarrow> (Some (NameError ''Model_refund''), s)
      | Some c \<Rightarrow>
          (None, emit (Call_model_json_schema c) (s\<lparr>my_schema := Some (model_json_schema c)\<rparr>)))"

text \<open>Line 87: \<open>my_schema["additionalProperties"] = False\<close>.\<close>

definition line_87 :: stmt where
  "line_87 s =
     (case my_schema s of
        None \<Rightarrow> (Some (NameError ''my_schema''), s)
      | Some d \<Rightarrow> (None, s\<lparr>my_schema := Some (dict_set ''additionalProperties'' (JBool False) d)\<rparr>))"

text \<open>
  Lines 94-96 and 103-104 are the two \<open>def\<close> statements: they bind the names
  \<open>my_invoke_function\<close> and \<open>my_enable_func\<close> to the functions above and do nothing
  else.

  Lines 111-119: \<open>refund_agent_handoff = Handoff(...)\<close>.
\<close>

definition line_111 :: stmt where
  "line_111 s =
     (case my_schema s of
        None \<Rightarrow> (Some (NameError ''my_schema''), s)
      | Some d \<Rightarrow>
          (let h = \<lparr>agent_name = ''refund_agent'', tool_name = ''refund_agent'',
                    tool_description = ''You provide support to user on refund process.'',
                    input_json_schema = d, on_invoke_handoff = Fn_my_invoke_function,
                    strict_json_schema = True, is_enabled = Fn_my_enable_func\<rparr>
           in (None, emit (New_Handoff h) (s\<lparr>refund_agent_handoff := Some h\<rparr>))))"

text \<open>Lines 126-131: \<open>main_agent = Agent(..., handoffs=[billing_agent, refund_agent_handoff])\<close>.\<close>

definition line_126 :: stmt where
  "line_126 s =
     (case model s of
        None \<Rightarrow> (Some (NameError ''model''), s)
      | Some m \<Rightarrow>
          (case billing_agent s of
             None \<Rightarrow> (Some (NameError ''billing_agent''), s)
           | Some b \<Rightarrow>
               (case refund_agent_handoff s of
                  None \<Rightarrow> (Some (NameError ''refund_agent_handoff''), s)
                | Some h \<Rightarrow>
                    (let a = Agent ''main_agent''
                               ''You always delegate tasks to the appropriate agent.''
                               m None [To_agent b, To_handoff h]
                     in (None, emit (New_Agent a) (s\<lparr>main_agent := Some a\<rparr>))))))"

text \<open>
  Lines 138-142: \<open>result = Runner.run_sync(main_agent, input=..., max_turns=2)\<close>. An
  exception of the run is not caught: it ends the statement, and \<open>result\<close> stays unbound.
\<close>

definition run_input :: string where
  "run_input = ''hi, I have some refund issues, please call refund agent.''"

definition line_138 :: "world \<Rightarrow> stmt" where
  "line_138 w s =
     (case main_agent s of
        None \<Rightarrow> (Some (NameError ''main_agent''), s)
      | Some a \<Rightarrow>
          (case Runner_run_sync w a run_input 2 s of
             (Inl x, s') \<Rightarrow> (Some x, s')
           | (Inr r, s') \<Rightarrow> (None, s'\<lparr>result := Some r\<rparr>)))"

text \<open>Line 145: \<open>rich.print("(check mark) Final output:", result.final_output)\<close>.\<close>

definition line_145 :: "world \<Rightarrow> stmt" where
  "line_145 w s =
     (case result s of
        None \<Rightarrow> (Some (NameError ''result''), s)
      | Some r \<Rightarrow> call_rich_print w Line_145 [check_mark @ '' Final output:'', final_output r] s)"

text \<open>Line 146: \<open>rich.print("(robot) Last agent name:", result._last_agent.name)\<close>.\<close>

definition line_146 :: "world \<Rightarrow> stmt" where
  "line_146 w s =
     (case result s of
        None \<Rightarrow> (Some (NameError ''result''), s)
      | Some r \<Rightarrow>
          call_rich_print w Line_146 [robot @ '' Last agent name:'', name (last_agent r)] s)"

text \<open>The script in three parts: credentials, construction, run and report.\<close>

definition credentials :: "world \<Rightarrow> stmt list" where
  "credentials w = [line_21 w, line_24, line_27, line_30, line_31]"

definition construction :: "stmt list" where
  "construction =
     [line_39, line_49, line_59, line_71, line_82, line_86, line_87, line_111, line_126]"

definition run_and_report :: "world \<Rightarrow> stmt list" where
  "run_and_report w = [line_138 w, line_145 w, line_146 w]"

definition script :: "world \<Rightarrow> stmt list" where
  "script w = credentials w @ construction @ run_and_report w"

text \<open>Running the script in a process whose environment is \<open>e\<close>.\<close>

definition main :: "world \<Rightarrow> env \<Rightarrow> exn option \<times> state" where
  "main w e = exec (script w) (initial e)"

text \<open>The state of the module when line 138 starts the run.\<close>

definition at_run :: "world \<Rightarrow> env \<Rightarrow> state" where
  "at_run w e = snd (exec (credentials w @ construction) (initial e))"

text \<open>
  The run of line 138: how it ends, and the state of the module when it does. What the
  script writes to the console after that is what the console holds at the end beyond
  what it held when the run ended.
\<close>

definition the_run :: "world \<Rightarrow> env \<Rightarrow> exn option \<times> state" where
  "the_run w e = exec (credentials w @ construction @ [line_138 w]) (initial e)"

definition written_after_run :: "world \<Rightarrow> env \<Rightarrow> string" where
  "written_after_run w e = drop (length (console (snd (the_run w e)))) (console (snd (main w e)))"

definition events_after_run :: "world \<Rightarrow> env \<Rightarrow> event list" where
  "events_after_run w e = drop (length (trace (snd (the_run w e)))) (trace (snd (main w e)))"

subsection \<open>Worlds to run the script in\<close>

text \<open>An environment with no variable set.\<close>

definition empty_env :: env where
  "empty_env = (\<lambda>x. None)"

text \<open>
  \<open>rich.print\<close> on a console 80 columns wide, for the texts the worlds below give it. A
  text whose first square bracket opens the closing tag \<open>[/]\<close> has nothing to close there:
  \<open>rich.print\<close> raises \<open>MarkupError\<close> with the position of the tag and writes nothing. The
  other texts of these worlds hold no tag and no emoji code and fit the line; they are
  written as they are, separated by one space (\<open>sep=" "\<close>), and the line is ended
  (\<open>end="\n"\<close>). Texts with other tags, emoji codes or longer lines are not given to it.
\<close>

fun closing_tag_pos :: "string \<Rightarrow> nat option" where
  "closing_tag_pos [] = None"
| "closing_tag_pos (c # cs) =
     (if c = CHR ''['' then (if take 2 cs = ''/]'' then Some 0 else None)
      else map_option Suc (closing_tag_pos cs))"

fun decimal :: "nat \<Rightarrow> string" where
  "decimal n =
     (if n < 10 then [''0123456789'' ! n]
      else decimal (n div 10) @ [''0123456789'' ! (n mod 10)])"

declare decimal.simps [simp del]

definition MarkupError :: "nat \<Rightarrow> exn" where
  "MarkupError pos =
     Exn ''MarkupError''
       (''closing tag '' @ [CHR 0x27] @ ''[/]'' @ [CHR 0x27] @ '' at position '' @ decimal pos @
        '' has nothing to close'')"

fun join_space :: "string list \<Rightarrow> string" where
  "join_space [] = []"
| "join_space [a] = a"
| "join_space (a # b # rest) = a @ '' '' @ join_space (b # rest)"

definition rich_console :: "string list \<Rightarrow> exn + string" where
  "rich_console args =
     (case List.map_filter closing_tag_pos args of
        pos # others \<Rightarrow> Inl (MarkupError pos)
      | [] \<Rightarrow> Inr (join_space args @ [newline]))"

text \<open>
  A run that hands the exchange over: the framework asks the first hand-off object of the
  agent whether it is enabled, awaits its \<open>on_invoke_handoff\<close> with the payload, and ends
  with the answer of the agent that returned, or with the exception that raised. An
  agent without a hand-off object, or with one that is not enabled, answers itself.
\<close>

fun handoff_objects :: "handoff_entry list \<Rightarrow> Handoff list" where
  "handoff_objects [] = []"
| "handoff_objects (To_agent a # rest) = handoff_objects rest"
| "handoff_objects (To_handoff h # rest) = h # handoff_objects rest"

definition handing_over :: "string \<Rightarrow> string \<Rightarrow> agent \<Rightarrow> run" where
  "handing_over payload answer a =
     (case handoff_objects (handoffs a) of
        [] \<Rightarrow> Returns \<lparr>final_output = answer, last_agent = a\<rparr>
      | h # others \<Rightarrow>
          Asks_enabled h a (\<lambda>enabled.
            if enabled
            then Invokes_handoff h payload (\<lambda>res.
                   case res of
                     Inl x \<Rightarrow> Raises x
                   | Inr b \<Rightarrow> Returns \<lparr>final_output = answer, last_agent = b\<rparr>)
            else Returns \<lparr>final_output = answer, last_agent = a\<rparr>))"

text \<open>
  The .env file gives a key; the run hands over to the refund agent, which answers in one
  line.
\<close>

definition good_world :: world where
  "good_world =
     \<lparr>load_dotenv = (\<lambda>e. e(''GEMINI_API_KEY'' \<mapsto> ''secret'')),
      rich_print = rich_console,
      run_sync = (\<lambda>a i n. handing_over ''{\"input\": \"refund for order 7\"}''
                              ''Your refund is on its way.'' a)\<rparr>"


text \<open>The .env file gives a key and the run raises.\<close>

definition failing_world :: world where
  "failing_world =
     \<lparr>load_dotenv = (\<lambda>e. e(''GEMINI_API_KEY'' \<mapsto> ''secret'')),
      rich_print = rich_console,
      run_sync = (\<lambda>a i n. Raises (Exn ''MaxTurnsExceeded'' ''Max turns (2) exceeded''))\<rparr>"

text \<open>There is no .env file, or it does not name the key.\<close>

definition keyless_world :: world where
  "keyless_world =
     \<lparr>load_dotenv = (\<lambda>e. e),
      rich_print = rich_console,
      run_sync = (\<lambda>a i n. handing_over ''{\"input\": \"refund for order 7\"}''
                              ''Your refund is on its way.'' a)\<rparr>"

text \<open>The .env file has the line \<open>GEMINI_API_KEY=\<close>.\<close>

definition blank_key_world :: world where
  "blank_key_world =
     \<lparr>load_dotenv = (\<lambda>e. e(''GEMINI_API_KEY'' \<mapsto> [])),
      rich_print = rich_console,
      run_sync = (\<lambda>a i n. handing_over ''{\"input\": \"refund for order 7\"}''
                              ''Your refund is on its way.'' a)\<rparr>"

subsection \<open>Reading a trace\<close>

text \<open>
  The steps of the script as the specification names them, and the step each event
  belongs to. Lines 21-32 are the credentials step: loading the .env file, the two
  switches of the framework, and reading the key. Lines 59-131 are the step that builds
  the agents and the hand-off object, with the schema the hand-off object is given. The
  print of line 95 is made by the function the run calls, inside the run.
\<close>

datatype step =
    Load_credentials
  | Construct_client
  | Construct_model
  | Construct_agents
  | Blocking_run
  | Print_lines

fun step_of :: "event \<Rightarrow> step" where
  "step_of Call_load_dotenv = Load_credentials"
| "step_of Call_enable_verbose_stdout_logging = Load_credentials"
| "step_of (Call_set_tracing_disabled b) = Load_credentials"
| "step_of (Call_getenv v) = Load_credentials"
| "step_of (New_AsyncOpenAI c) = Construct_client"
| "step_of (New_OpenAIChatCompletionsModel m) = Construct_model"
| "step_of (New_Agent a) = Construct_agents"
| "step_of (Call_model_json_schema c) = Construct_agents"
| "step_of (New_Handoff h) = Construct_agents"
| "step_of (Call_run_sync a i n) = Blocking_run"
| "step_of (Print Line_95 args) = Blocking_run"
| "step_of (Print Line_145 args) = Print_lines"
| "step_of (Print Line_146 args) = Print_lines"

text \<open>The events that construct an agent, a hand-off object, or start the run.\<close>

fun is_new_agent :: "event \<Rightarrow> bool" where
  "is_new_agent (New_Agent a) = True"
| "is_new_agent ev = False"

fun is_new_handoff :: "event \<Rightarrow> bool" where
  "is_new_handoff (New_Handoff h) = True"
| "is_new_handoff ev = False"

definition is_new_agent_or_handoff :: "event \<Rightarrow> bool" where
  "is_new_agent_or_handoff ev = (is_new_agent ev \<or> is_new_handoff ev)"

fun is_run_call :: "event \<Rightarrow> bool" where
  "is_run_call (Call_run_sync a i n) = True"
| "is_run_call ev = False"

text \<open>The prints of lines 145 and 146, the report of the script.\<close>

fun is_report :: "event \<Rightarrow> bool" where
  "is_report (Print Line_145 args) = True"
| "is_report (Print Line_146 args) = True"
| "is_report ev = False"

text \<open>
  The steps a trace went through: the step of each event, with the repetitions of a step
  that follow each other directly counted as that one step. A step that happens once and in
  its place shows as one entry; a step that is taken up again later shows twice.
\<close>

definition steps_of :: "event list \<Rightarrow> step list" where
  "steps_of evs = remdups_adj (map step_of evs)"

definition all_steps :: "step list" where
  "all_steps = [Load_credentials, Construct_client, Construct_model, Construct_agents,
                Blocking_run, Print_lines]"

section \<open>Running the script\<close>

lemmas stmt_defs = line_21_def line_24_def line_27_def line_30_def line_31_def line_39_def
  line_49_def line_59_def line_71_def line_82_def line_86_def line_87_def line_111_def
  line_126_def

lemma exec_append:
  "exec (xs @ ys) s =
     (case exec xs s of (Some e, s') \<Rightarrow> (Some e, s') | (None, s') \<Rightarrow> exec ys s')"
  by (induction xs arbitrary: s) (auto split: prod.splits option.splits)

text \<open>The first five statements: the guard of line 31 decides how they end.\<close>

lemma credentials_outcome:
  "exec (credentials w) (initial e) =
     (if truthy (load_dotenv w e ''GEMINI_API_KEY'') then None
      else Some (Exn ''Exception'' ''GEMINI_API_KEY is not set in .env file''),
      (initial (load_dotenv w e))
        \<lparr>gemini_api_key := Some (load_dotenv w e ''GEMINI_API_KEY''),
         trace := [Call_load_dotenv, Call_enable_verbose_stdout_logging,
                   Call_set_tracing_disabled True, Call_getenv ''GEMINI_API_KEY'']\<rparr>)"
  by (simp add: credentials_def initial_def stmt_defs emit_def)

lemma main_without_key:
  assumes "\<not> truthy (load_dotenv w e ''GEMINI_API_KEY'')"
  shows "main w e =
     (Some (Exn ''Exception'' ''GEMINI_API_KEY is not set in .env file''),
      (initial (load_dotenv w e))
        \<lparr>gemini_api_key := Some (load_dotenv w e ''GEMINI_API_KEY''),
         trace := [Call_load_dotenv, Call_enable_verbose_stdout_logging,
                   Call_set_tracing_disabled True, Call_getenv ''GEMINI_API_KEY'']\<rparr>)"
  using assms by (simp add: main_def script_def exec_append credentials_outcome)

text \<open>The schema of lines 82-87.\<close>

lemma field_title_input: "field_title ''input'' = ''Input''"
  by (simp add: field_title_def is_letter_def to_upper_def to_lower_def lowers_def uppers_def)

lemma refund_schema:
  "dict_set ''additionalProperties'' (JBool False)
     (model_json_schema \<lparr>class_name = ''Model_refund'', class_fields = [(''input'', Ann_str)]\<rparr>) =
   [(''properties'',
       JObj [(''input'', JObj [(''title'', JStr ''Input''), (''type'', JStr ''string'')])]),
    (''required'', JArr [JStr ''input'']),
    (''title'', JStr ''Model_refund''),
    (''type'', JStr ''object''),
    (''additionalProperties'', JBool False)]"
  by (simp add: model_json_schema_def field_schema_def field_title_input)

text \<open>
  The nine statements of the construction part never raise once \<open>gemini_api_key\<close> is
  bound; they bind eight names and add seven events.
\<close>

lemma construction_outcome:
  fixes k :: "string option"
  defines "c \<equiv> \<lparr>api_key = k,
                  base_url = ''https://generativelanguage.googleapis.com/v1beta/openai/''\<rparr>"
  defines "m \<equiv> \<lparr>model_id = ''gemini-2.0-flash'', openai_client = c\<rparr>"
  defines "b \<equiv> Agent ''billing_agent''
                 ''You handle all billing-related inquiries. Provide clear and concise information regarding billing issues.''
                 m (Some ''You support the user in billing issues.'') []"
  defines "r \<equiv> Agent ''refund_agent''
                 ''You handle all refund-related processes. Assist users in processing refunds efficiently.''
                 m None []"
  defines "cls \<equiv> \<lparr>class_name = ''Model_refund'', class_fields = [(''input'', Ann_str)]\<rparr>"
  defines "d \<equiv> dict_set ''additionalProperties'' (JBool False) (model_json_schema cls)"
  defines "h \<equiv> \<lparr>agent_name = ''refund_agent'', tool_name = ''refund_agent'',
                  tool_description = ''You provide support to user on refund process.'',
                  input_json_schema = d, on_invoke_handoff = Fn_my_invoke_function,
                  strict_json_schema = True, is_enabled = Fn_my_enable_func\<rparr>"
  defines "a \<equiv> Agent ''main_agent'' ''You always delegate tasks to the appropriate agent.''
                 m None [To_agent b, To_handoff h]"
  assumes bound: "gemini_api_key s = Some k"
  shows "exec construction s =
     (None, s\<lparr>external_client := Some c, model := Some m, billing_agent := Some b,
              refund_agent := Some r, Model_refund := Some cls, my_schema := Some d,
              refund_agent_handoff := Some h, main_agent := Some a,
              trace := trace s @ [New_AsyncOpenAI c, New_OpenAIChatCompletionsModel m,
                                  New_Agent b, New_Agent r, Call_model_json_schema cls,
                                  New_Handoff h, New_Agent a]\<rparr>)"
  using bound unfolding c_def m_def b_def r_def cls_def d_def h_def a_def
  by (simp add: construction_def stmt_defs emit_def Let_def)

text \<open>With a key, the script reaches line 138.\<close>

lemma reaches_run:
  assumes "truthy (load_dotenv w e ''GEMINI_API_KEY'')"
  shows "exec (credentials w @ construction) (initial e) = (None, at_run w e)"
  using assms
  by (simp add: at_run_def exec_append credentials_outcome construction_outcome)

lemma main_from_run:
  assumes "truthy (load_dotenv w e ''GEMINI_API_KEY'')"
  shows "main w e = exec (run_and_report w) (at_run w e)"
proof -
  have "main w e = exec ((credentials w @ construction) @ run_and_report w) (initial e)"
    by (simp add: main_def script_def)
  then show ?thesis
    by (simp only: exec_append [of "credentials w @ construction"] reaches_run [OF assms])
      simp
qed

lemma the_run_from_run:
  assumes "truthy (load_dotenv w e ''GEMINI_API_KEY'')"
  shows "the_run w e = line_138 w (at_run w e)"
proof -
  have "the_run w e = exec ((credentials w @ construction) @ [line_138 w]) (initial e)"
    by (simp add: the_run_def)
  then show ?thesis
    by (simp only: exec_append [of "credentials w @ construction"] reaches_run [OF assms])
      (simp split: prod.splits option.splits)
qed

text \<open>What the state at line 138 holds.\<close>

lemma at_run_names:
  assumes "truthy (load_dotenv w e ''GEMINI_API_KEY'')"
  shows "\<exists>b r h a. billing_agent (at_run w e) = Some b \<and> name b = ''billing_agent'' \<and>
           refund_agent (at_run w e) = Some r \<and> name r = ''refund_agent'' \<and>
           refund_agent_handoff (at_run w e) = Some h \<and>
           main_agent (at_run w e) = Some a \<and> name a = ''main_agent'' \<and>
           handoffs a = [To_agent b, To_handoff h]"
  using assms
  by (simp add: at_run_def exec_append credentials_outcome construction_outcome)

lemma at_run_trace:
  assumes "truthy (load_dotenv w e ''GEMINI_API_KEY'')"
  shows "\<exists>c m b r cls h a.
           main_agent (at_run w e) = Some a \<and> name a = ''main_agent'' \<and>
           trace (at_run w e) =
             [Call_load_dotenv, Call_enable_verbose_stdout_logging,
              Call_set_tracing_disabled True, Call_getenv ''GEMINI_API_KEY'',
              New_AsyncOpenAI c, New_OpenAIChatCompletionsModel m,
              New_Agent b, New_Agent r, Call_model_json_schema cls,
              New_Handoff h, New_Agent a]"
  using assms
  by (simp add: at_run_def exec_append credentials_outcome construction_outcome)

lemma at_run_schema:
  assumes "truthy (load_dotenv w e ''GEMINI_API_KEY'')"
  shows "\<exists>h. refund_agent_handoff (at_run w e) = Some h \<and>
           my_schema (at_run w e) = Some (input_json_schema h) \<and>
           input_json_schema h =
             [(''properties'',
                 JObj [(''input'', JObj [(''title'', JStr ''Input''), (''type'', JStr ''string'')])]),
              (''required'', JArr [JStr ''input'']),
              (''title'', JStr ''Model_refund''),
              (''type'', JStr ''object''),
              (''additionalProperties'', JBool False)]"
  using assms
  by (simp add: at_run_def exec_append credentials_outcome construction_outcome refund_schema)

lemma at_run_fresh:
  assumes "truthy (load_dotenv w e ''GEMINI_API_KEY'')"
  shows "result (at_run w e) = None" and "console (at_run w e) = []"
proof -
  have fresh: "result (initial (load_dotenv w e)) = None" "console (initial (load_dotenv w e)) = []"
    by (simp_all add: initial_def)
  show "result (at_run w e) = None" and "console (at_run w e) = []"
    using assms
    by (simp_all add: at_run_def exec_append credentials_outcome construction_outcome fresh)
qed

text \<open>The worlds with a key.\<close>

lemma key_good: "truthy (load_dotenv good_world empty_env ''GEMINI_API_KEY'')"
  by (simp add: good_world_def)


lemma key_failing: "truthy (load_dotenv failing_world empty_env ''GEMINI_API_KEY'')"
  by (simp add: failing_world_def)

subsection \<open>What a print and a run leave of the state\<close>

text \<open>
  A call of \<open>rich.print\<close> adds its event and the text it wrote, and changes nothing else;
  so does the function of line 94, and so does a run, whatever it calls.
\<close>

lemma call_rich_print_effect:
  "\<exists>txt. snd (call_rich_print w l args s) =
           s\<lparr>trace := trace s @ [Print l args], console := console s @ txt\<rparr>"
proof (cases "rich_print w args")
  case (Inl x)
  then have "snd (call_rich_print w l args s) =
      s\<lparr>trace := trace s @ [Print l args], console := console s @ []\<rparr>"
    by (simp add: call_rich_print_def emit_def)
  then show ?thesis ..
next
  case (Inr out)
  then have "snd (call_rich_print w l args s) =
      s\<lparr>trace := trace s @ [Print l args], console := console s @ out\<rparr>"
    by (simp add: call_rich_print_def emit_def)
  then show ?thesis ..
qed

lemma my_invoke_function_effect:
  "\<exists>args txt. snd (my_invoke_function w ctx input s) =
           s\<lparr>trace := trace s @ [Print Line_95 args], console := console s @ txt\<rparr>"
proof -
  obtain out where "snd (call_rich_print w Line_95 [rocket @ '' Received handoff input:'', input] s) =
      s\<lparr>trace := trace s @ [Print Line_95 [rocket @ '' Received handoff input:'', input]],
        console := console s @ out\<rparr>"
    using call_rich_print_effect by blast
  then have "snd (my_invoke_function w ctx input s) =
      s\<lparr>trace := trace s @ [Print Line_95 [rocket @ '' Received handoff input:'', input]],
        console := console s @ out\<rparr>"
    by (auto simp: my_invoke_function_def split: prod.splits option.splits)
  then show ?thesis
    by blast
qed

lemma carry_out_effect:
  "\<exists>evs txt. snd (carry_out w r s) = s\<lparr>trace := trace s @ evs, console := console s @ txt\<rparr> \<and>
             (\<forall>ev \<in> set evs. \<exists>args. ev = Print Line_95 args)"
proof (induction r arbitrary: s)
  case (Returns r)
  have "snd (carry_out w (Returns r) s) = s\<lparr>trace := trace s @ [], console := console s @ []\<rparr>"
    by simp
  then show ?case
    by (intro exI [of _ "[]"]) simp
next
  case (Raises x)
  have "snd (carry_out w (Raises x) s) = s\<lparr>trace := trace s @ [], console := console s @ []\<rparr>"
    by simp
  then show ?case
    by (intro exI [of _ "[]"]) simp
next
  case (Asks_enabled h a k)
  then show ?case
    by simp
next
  case (Invokes_handoff h input k)
  obtain res s' where call: "call_on_invoke_handoff (on_invoke_handoff h) w () input s = (res, s')"
    by (cases "call_on_invoke_handoff (on_invoke_handoff h) w () input s")
  have "s' = snd (my_invoke_function w () input s)"
    using call by (cases "on_invoke_handoff h") simp
  then obtain args t1 where s': "s' = s\<lparr>trace := trace s @ [Print Line_95 args],
      console := console s @ t1\<rparr>"
    using my_invoke_function_effect [of w "()" input s] by auto
  obtain evs t2 where rest: "snd (carry_out w (k res) s') =
      s'\<lparr>trace := trace s' @ evs, console := console s' @ t2\<rparr>"
    and evs: "\<forall>ev \<in> set evs. \<exists>args. ev = Print Line_95 args"
    using Invokes_handoff.IH [OF rangeI] by blast
  have "snd (carry_out w (Invokes_handoff h input k) s) =
      s\<lparr>trace := trace s @ (Print Line_95 args # evs), console := console s @ (t1 @ t2)\<rparr>"
    using call rest by (simp add: s')
  moreover have "\<forall>ev \<in> set (Print Line_95 args # evs). \<exists>args. ev = Print Line_95 args"
    using evs by simp
  ultimately show ?case
    by blast
qed

lemma Runner_run_sync_effect:
  "\<exists>evs out. snd (Runner_run_sync w a i n s) =
             s\<lparr>trace := trace s @ Call_run_sync a i n # evs, console := console s @ out\<rparr> \<and>
             (\<forall>ev \<in> set evs. \<exists>args. ev = Print Line_95 args)"
proof -
  obtain evs out where
    "snd (carry_out w (run_sync w a i n) (emit (Call_run_sync a i n) s)) =
       (emit (Call_run_sync a i n) s)
         \<lparr>trace := trace (emit (Call_run_sync a i n) s) @ evs,
          console := console (emit (Call_run_sync a i n) s) @ out\<rparr>"
    and "\<forall>ev \<in> set evs. \<exists>args. ev = Print Line_95 args"
    using carry_out_effect by blast
  then have "snd (Runner_run_sync w a i n s) =
       s\<lparr>trace := trace s @ Call_run_sync a i n # evs, console := console s @ out\<rparr> \<and>
       (\<forall>ev \<in> set evs. \<exists>args. ev = Print Line_95 args)"
    by (simp add: Runner_run_sync_def emit_def)
  then show ?thesis
    by blast
qed

text \<open>Line 138 binds \<open>result\<close> when the run returns, and no other name.\<close>

lemma line_138_effect:
  "\<exists>res evs out. snd (line_138 w s) =
     s\<lparr>result := res, trace := trace s @ evs, console := console s @ out\<rparr>"
proof (cases "main_agent s")
  case None
  then have "snd (line_138 w s) = s\<lparr>result := result s, trace := trace s @ [], console := console s @ []\<rparr>"
    by (simp add: line_138_def)
  then show ?thesis
    by blast
next
  case (Some a)
  obtain evs out where run: "snd (Runner_run_sync w a run_input 2 s) =
      s\<lparr>trace := trace s @ Call_run_sync a run_input 2 # evs, console := console s @ out\<rparr>"
    using Runner_run_sync_effect by blast
  obtain r s' where call: "Runner_run_sync w a run_input 2 s = (r, s')"
    by (cases "Runner_run_sync w a run_input 2 s")
  show ?thesis
  proof (cases r)
    case (Inl x)
    then have "snd (line_138 w s) =
        s\<lparr>result := result s, trace := trace s @ Call_run_sync a run_input 2 # evs,
          console := console s @ out\<rparr>"
      using Some call run by (simp add: line_138_def)
    then show ?thesis
      by blast
  next
    case (Inr res)
    then have "snd (line_138 w s) =
        s\<lparr>result := Some res, trace := trace s @ Call_run_sync a run_input 2 # evs,
          console := console s @ out\<rparr>"
      using Some call run by (simp add: line_138_def)
    then show ?thesis
      by blast
  qed
qed

lemma line_138_keeps:
  "billing_agent (snd (line_138 w s)) = billing_agent s"
  "refund_agent (snd (line_138 w s)) = refund_agent s"
  "main_agent (snd (line_138 w s)) = main_agent s"
  "my_schema (snd (line_138 w s)) = my_schema s"
  "refund_agent_handoff (snd (line_138 w s)) = refund_agent_handoff s"
proof -
  obtain res evs out where "snd (line_138 w s) =
      s\<lparr>result := res, trace := trace s @ evs, console := console s @ out\<rparr>"
    using line_138_effect by blast
  then show "billing_agent (snd (line_138 w s)) = billing_agent s"
    "refund_agent (snd (line_138 w s)) = refund_agent s"
    "main_agent (snd (line_138 w s)) = main_agent s"
    "my_schema (snd (line_138 w s)) = my_schema s"
    "refund_agent_handoff (snd (line_138 w s)) = refund_agent_handoff s"
    by simp_all
qed

lemma report_keeps:
  "billing_agent (snd (line_145 w s)) = billing_agent s"
  "refund_agent (snd (line_145 w s)) = refund_agent s"
  "main_agent (snd (line_145 w s)) = main_agent s"
  "my_schema (snd (line_145 w s)) = my_schema s"
  "refund_agent_handoff (snd (line_145 w s)) = refund_agent_handoff s"
  "billing_agent (snd (line_146 w s)) = billing_agent s"
  "refund_agent (snd (line_146 w s)) = refund_agent s"
  "main_agent (snd (line_146 w s)) = main_agent s"
  "my_schema (snd (line_146 w s)) = my_schema s"
  "refund_agent_handoff (snd (line_146 w s)) = refund_agent_handoff s"
  by (simp_all add: line_145_def line_146_def call_rich_print_def emit_def
      split: option.splits sum.splits)

subsection \<open>Names that statements leave alone\<close>

text \<open>
  A name that no statement of a list assigns has the value after the list that it had
  before, however the list ends.
\<close>

lemma exec_keeps:
  assumes "\<And>st s. st \<in> set xs \<Longrightarrow> g (snd (st s)) = g s"
  shows "g (snd (exec xs s)) = g s"
  using assms
proof (induction xs arbitrary: s)
  case Nil
  then show ?case by simp
next
  case (Cons st xs)
  show ?case
  proof (cases "st s")
    case (Pair r s')
    have here: "g s' = g s"
      using Cons.prems [of st s] Pair by simp
    show ?thesis
    proof (cases r)
      case None
      have "g (snd (exec xs s')) = g s'"
        using Cons.IH Cons.prems by simp
      with None Pair here show ?thesis by simp
    next
      case (Some e)
      with Pair here show ?thesis by simp
    qed
  qed
qed

text \<open>
  A name that one statement \<open>c\<close> of a list assigns, and no other: wherever the list is cut,
  a value the name has at the cut is the value it has at the end.
\<close>

lemma kept_after_binding:
  assumes whole: "xs = A @ c # B"
    and keepsA: "\<And>st s. st \<in> set A \<Longrightarrow> g (snd (st s)) = g s"
    and keepsB: "\<And>st s. st \<in> set B \<Longrightarrow> g (snd (st s)) = g s"
    and unbound: "g s0 = None"
    and split: "xs = pre @ post"
    and pre: "exec pre s0 = (None, s1)"
    and bound: "g s1 = Some a"
  shows "g (snd (exec xs s0)) = Some a"
proof -
  have rest: "exec xs s0 = exec post s1"
    using split pre by (simp add: exec_append)
  from whole split have "pre @ post = A @ (c # B)"
    by simp
  then obtain us where
    "(pre = A @ us \<and> us @ post = c # B) \<or> (pre @ us = A \<and> post = us @ c # B)"
    by (auto simp: append_eq_append_conv2)
  then consider
      (before) us' where "pre @ us' = A"
    | (after) us' where "pre = A @ c # us'" "us' @ post = B"
    by (cases us) (auto simp: Cons_eq_append_conv)
  then show ?thesis
  proof cases
    case before
    then have "set pre \<subseteq> set A"
      by auto
    then have "g (snd (exec pre s0)) = g s0"
      using keepsA by (intro exec_keeps) auto
    with pre unbound bound show ?thesis
      by simp
  next
    case after
    then have "set post \<subseteq> set B"
      by auto
    then have "g (snd (exec post s1)) = g s1"
      using keepsB by (intro exec_keeps) auto
    with rest bound show ?thesis
      by simp
  qed
qed

text \<open>Line 59 is the only statement that assigns \<open>billing_agent\<close>.\<close>

lemma keeps_billing:
  "st \<in> set (credentials w @ [line_39, line_49]) \<Longrightarrow> billing_agent (snd (st s)) = billing_agent s"
  "st \<in> set ([line_71, line_82, line_86, line_87, line_111, line_126] @ run_and_report w) \<Longrightarrow>
     billing_agent (snd (st s)) = billing_agent s"
  by (auto simp: credentials_def run_and_report_def stmt_defs emit_def Let_def
      line_138_keeps report_keeps split: option.splits)

text \<open>Line 71 is the only statement that assigns \<open>refund_agent\<close>.\<close>

lemma keeps_refund:
  "st \<in> set (credentials w @ [line_39, line_49, line_59]) \<Longrightarrow> refund_agent (snd (st s)) = refund_agent s"
  "st \<in> set ([line_82, line_86, line_87, line_111, line_126] @ run_and_report w) \<Longrightarrow>
     refund_agent (snd (st s)) = refund_agent s"
  by (auto simp: credentials_def run_and_report_def stmt_defs emit_def Let_def
      line_138_keeps report_keeps split: option.splits)

text \<open>Line 126 is the only statement that assigns \<open>main_agent\<close>.\<close>

lemma keeps_main:
  "st \<in> set (credentials w @ [line_39, line_49, line_59, line_71, line_82, line_86, line_87, line_111]) \<Longrightarrow>
     main_agent (snd (st s)) = main_agent s"
  "st \<in> set (run_and_report w) \<Longrightarrow> main_agent (snd (st s)) = main_agent s"
  by (auto simp: credentials_def run_and_report_def stmt_defs emit_def Let_def
      line_138_keeps report_keeps split: option.splits)

lemma run_and_report_keeps:
  "my_schema (snd (exec (run_and_report w) s)) = my_schema s"
  "refund_agent_handoff (snd (exec (run_and_report w) s)) = refund_agent_handoff s"
proof -
  show "my_schema (snd (exec (run_and_report w) s)) = my_schema s"
    by (rule exec_keeps [where g = my_schema])
      (auto simp: run_and_report_def line_138_keeps report_keeps)
  show "refund_agent_handoff (snd (exec (run_and_report w) s)) = refund_agent_handoff s"
    by (rule exec_keeps [where g = refund_agent_handoff])
      (auto simp: run_and_report_def line_138_keeps report_keeps)
qed

section \<open>The claims of the specification\<close>

subsection \<open>The credential check\<close>

text \<open>
  Claim C1: if \<open>GEMINI_API_KEY\<close> is absent from the environment after the .env file is
  loaded, the script ends at line 32 with the exception whose message is
  "GEMINI_API_KEY is not set in .env file". Nothing was constructed by then: the names of
  the client, the model, the three agents and the hand-off object are unbound, and the
  trace holds the four calls of lines 21-30 and no constructor.
\<close>

theorem missing_key_aborts_before_construction:
  assumes "load_dotenv w e ''GEMINI_API_KEY'' = None"
  shows "fst (main w e) = Some (Exn ''Exception'' ''GEMINI_API_KEY is not set in .env file'') \<and>
         external_client (snd (main w e)) = None \<and>
         model (snd (main w e)) = None \<and>
         billing_agent (snd (main w e)) = None \<and>
         refund_agent (snd (main w e)) = None \<and>
         refund_agent_handoff (snd (main w e)) = None \<and>
         main_agent (snd (main w e)) = None \<and>
         trace (snd (main w e)) =
           [Call_load_dotenv, Call_enable_verbose_stdout_logging,
            Call_set_tracing_disabled True, Call_getenv ''GEMINI_API_KEY'']"
proof -
  have "\<not> truthy (load_dotenv w e ''GEMINI_API_KEY'')"
    using assms by simp
  then show ?thesis
    by (simp add: main_without_key initial_def)
qed

theorem missing_key_aborts_witness:
  "load_dotenv keyless_world empty_env ''GEMINI_API_KEY'' = None \<and>
   fst (main keyless_world empty_env) =
     Some (Exn ''Exception'' ''GEMINI_API_KEY is not set in .env file'') \<and>
   external_client (snd (main keyless_world empty_env)) = None \<and>
   main_agent (snd (main keyless_world empty_env)) = None \<and>
   trace (snd (main keyless_world empty_env)) =
     [Call_load_dotenv, Call_enable_verbose_stdout_logging,
      Call_set_tracing_disabled True, Call_getenv ''GEMINI_API_KEY'']"
proof -
  have unset: "load_dotenv keyless_world empty_env ''GEMINI_API_KEY'' = None"
    by (simp add: keyless_world_def empty_env_def)
  show ?thesis
    using unset missing_key_aborts_before_construction [OF unset] by simp
qed

text \<open>
  Claim C9: the guard of line 31 tests the truth value of the key, so the script ends
  with the same exception, after the same four calls, when the variable is absent and
  when it is set to the empty string.
\<close>

theorem falsy_key_aborts:
  assumes "load_dotenv w e ''GEMINI_API_KEY'' = None \<or> load_dotenv w e ''GEMINI_API_KEY'' = Some []"
  shows "fst (main w e) = Some (Exn ''Exception'' ''GEMINI_API_KEY is not set in .env file'') \<and>
         trace (snd (main w e)) =
           [Call_load_dotenv, Call_enable_verbose_stdout_logging,
            Call_set_tracing_disabled True, Call_getenv ''GEMINI_API_KEY'']"
proof -
  have "\<not> truthy (load_dotenv w e ''GEMINI_API_KEY'')"
    using assms by auto
  then show ?thesis
    by (simp add: main_without_key)
qed

theorem falsy_key_aborts_witness:
  "load_dotenv blank_key_world empty_env ''GEMINI_API_KEY'' = Some [] \<and>
   fst (main blank_key_world empty_env) =
     Some (Exn ''Exception'' ''GEMINI_API_KEY is not set in .env file'') \<and>
   trace (snd (main blank_key_world empty_env)) =
     [Call_load_dotenv, Call_enable_verbose_stdout_logging,
      Call_set_tracing_disabled True, Call_getenv ''GEMINI_API_KEY'']"
proof -
  have blank: "load_dotenv blank_key_world empty_env ''GEMINI_API_KEY'' = Some []"
    by (simp add: blank_key_world_def)
  then show ?thesis
    using falsy_key_aborts [of blank_key_world empty_env] by simp
qed

subsection \<open>The two functions given to the hand-off object\<close>

text \<open>
  Claim C4: \<open>my_enable_func\<close> returns true for every run context and every agent, and so
  does the \<open>is_enabled\<close> field of a hand-off object, which can hold no other function.
\<close>

theorem my_enable_func_always_true:
  "my_enable_func ctx a \<and> call_is_enabled (is_enabled h) ctx a"
  by (cases "is_enabled h") (simp add: my_enable_func_def)

subsection \<open>The agents after their construction\<close>

text \<open>
  Claim C8: the three agents are constructed once and never changed afterwards. Cut the
  script anywhere; if the statements before the cut completed and one of the names
  \<open>billing_agent\<close>, \<open>refund_agent\<close>, \<open>main_agent\<close> is bound to an agent there, the name is
  bound to that very agent when the script ends, however it ends. An agent is a value of
  its five fields, so its name, instructions, model and handoffs are the ones it was
  constructed with.
\<close>

theorem agents_never_rebound:
  assumes split: "script w = pre @ post"
    and pre: "exec pre (initial e) = (None, s1)"
  shows "(\<forall>a. billing_agent s1 = Some a \<longrightarrow> billing_agent (snd (main w e)) = Some a) \<and>
         (\<forall>a. refund_agent s1 = Some a \<longrightarrow> refund_agent (snd (main w e)) = Some a) \<and>
         (\<forall>a. main_agent s1 = Some a \<longrightarrow> main_agent (snd (main w e)) = Some a)"
proof (intro conjI allI impI)
  fix a
  assume "billing_agent s1 = Some a"
  moreover have "script w = (credentials w @ [line_39, line_49]) @ line_59 #
      ([line_71, line_82, line_86, line_87, line_111, line_126] @ run_and_report w)"
    by (simp add: script_def construction_def)
  moreover have "billing_agent (initial e) = None"
    by (simp add: initial_def)
  ultimately show "billing_agent (snd (main w e)) = Some a"
    unfolding main_def
    using keeps_billing split pre by (intro kept_after_binding [where g = billing_agent])
next
  fix a
  assume "refund_agent s1 = Some a"
  moreover have "script w = (credentials w @ [line_39, line_49, line_59]) @ line_71 #
      ([line_82, line_86, line_87, line_111, line_126] @ run_and_report w)"
    by (simp add: script_def construction_def)
  moreover have "refund_agent (initial e) = None"
    by (simp add: initial_def)
  ultimately show "refund_agent (snd (main w e)) = Some a"
    unfolding main_def
    using keeps_refund split pre by (intro kept_after_binding [where g = refund_agent])
next
  fix a
  assume "main_agent s1 = Some a"
  moreover have "script w =
      (credentials w @ [line_39, line_49, line_59, line_71, line_82, line_86, line_87, line_111]) @
      line_126 # run_and_report w"
    by (simp add: script_def construction_def)
  moreover have "main_agent (initial e) = None"
    by (simp add: initial_def)
  ultimately show "main_agent (snd (main w e)) = Some a"
    unfolding main_def
    using keeps_main split pre by (intro kept_after_binding [where g = main_agent])
qed

theorem agents_never_rebound_witness:
  "script good_world = (credentials good_world @ construction) @ run_and_report good_world \<and>
   exec (credentials good_world @ construction) (initial empty_env) =
     (None, at_run good_world empty_env) \<and>
   (\<exists>b r a. billing_agent (at_run good_world empty_env) = Some b \<and>
            billing_agent (snd (main good_world empty_env)) = Some b \<and>
            name b = ''billing_agent'' \<and>
            refund_agent (at_run good_world empty_env) = Some r \<and>
            refund_agent (snd (main good_world empty_env)) = Some r \<and>
            name r = ''refund_agent'' \<and>
            main_agent (at_run good_world empty_env) = Some a \<and>
            main_agent (snd (main good_world empty_env)) = Some a \<and>
            name a = ''main_agent'')"
proof -
  have cut: "script good_world =
      (credentials good_world @ construction) @ run_and_report good_world"
    by (simp add: script_def)
  have upto: "exec (credentials good_world @ construction) (initial empty_env) =
      (None, at_run good_world empty_env)"
    by (rule reaches_run [OF key_good])
  obtain b r a where bound:
    "billing_agent (at_run good_world empty_env) = Some b" "name b = ''billing_agent''"
    "refund_agent (at_run good_world empty_env) = Some r" "name r = ''refund_agent''"
    "main_agent (at_run good_world empty_env) = Some a" "name a = ''main_agent''"
    using at_run_names [OF key_good] by blast
  show ?thesis
    using cut upto bound agents_never_rebound [OF cut upto] by simp
qed

subsection \<open>The run and the report\<close>

text \<open>The function of line 94 when its print returns, and when its print raises.\<close>

lemma my_invoke_function_returns:
  assumes "rich_print w [rocket @ '' Received handoff input:'', input] = Inr out"
    and "refund_agent s = Some r"
  shows "my_invoke_function w ctx input s =
     (Inr r, s\<lparr>trace := trace s @ [Print Line_95 [rocket @ '' Received handoff input:'', input]],
              console := console s @ out\<rparr>)"
  using assms by (simp add: my_invoke_function_def call_rich_print_def emit_def)

lemma my_invoke_function_raises:
  assumes "rich_print w [rocket @ '' Received handoff input:'', input] = Inl x"
  shows "my_invoke_function w ctx input s =
     (Inl x, s\<lparr>trace := trace s @ [Print Line_95 [rocket @ '' Received handoff input:'', input]]\<rparr>)"
  using assms by (simp add: my_invoke_function_def call_rich_print_def emit_def)

text \<open>The two prints of the report, by what \<open>rich.print\<close> does with each.\<close>

lemma report_outcome:
  assumes "result s = Some r"
  shows "exec [line_145 w, line_146 w] s =
     (case rich_print w [check_mark @ '' Final output:'', final_output r] of
        Inl x \<Rightarrow>
          (Some x, s\<lparr>trace := trace s @ [Print Line_145 [check_mark @ '' Final output:'', final_output r]]\<rparr>)
      | Inr t1 \<Rightarrow>
          (case rich_print w [robot @ '' Last agent name:'', name (last_agent r)] of
             Inl x \<Rightarrow>
               (Some x,
                s\<lparr>trace := trace s @
                     [Print Line_145 [check_mark @ '' Final output:'', final_output r],
                      Print Line_146 [robot @ '' Last agent name:'', name (last_agent r)]],
                  console := console s @ t1\<rparr>)
           | Inr t2 \<Rightarrow>
               (None,
                s\<lparr>trace := trace s @
                     [Print Line_145 [check_mark @ '' Final output:'', final_output r],
                      Print Line_146 [robot @ '' Last agent name:'', name (last_agent r)]],
                  console := console s @ t1 @ t2\<rparr>)))"
  using assms
  by (simp add: line_145_def line_146_def call_rich_print_def emit_def split: sum.splits)

text \<open>The script from line 138 on, by how the run ends.\<close>

lemma main_when_run_raises:
  assumes key: "truthy (load_dotenv w e ''GEMINI_API_KEY'')"
    and agent: "main_agent (at_run w e) = Some a"
    and raises: "Runner_run_sync w a run_input 2 (at_run w e) = (Inl x, s')"
  shows "main w e = (Some x, s')" and "the_run w e = (Some x, s')"
  using agent raises
  by (simp_all add: main_from_run [OF key] the_run_from_run [OF key] run_and_report_def
      line_138_def)

lemma main_when_run_returns:
  assumes key: "truthy (load_dotenv w e ''GEMINI_API_KEY'')"
    and agent: "main_agent (at_run w e) = Some a"
    and returns: "Runner_run_sync w a run_input 2 (at_run w e) = (Inr r, s')"
  shows "main w e = exec [line_145 w, line_146 w] (s'\<lparr>result := Some r\<rparr>)"
    and "the_run w e = (None, s'\<lparr>result := Some r\<rparr>)"
  using agent returns
  by (simp_all add: main_from_run [OF key] the_run_from_run [OF key] run_and_report_def
      line_138_def)

text \<open>
  The trace of the script with a key: the events up to line 138, the call of the run, the
  prints of line 95 the run caused, and as much of the report as was reached.
\<close>

lemma main_shape:
  assumes key: "truthy (load_dotenv w e ''GEMINI_API_KEY'')"
  shows "\<exists>a evs tail.
           main_agent (at_run w e) = Some a \<and> name a = ''main_agent'' \<and>
           trace (snd (main w e)) = trace (at_run w e) @ Call_run_sync a run_input 2 # evs @ tail \<and>
           (\<forall>ev \<in> set evs. \<exists>args. ev = Print Line_95 args) \<and>
           (tail = [] \<and> fst (main w e) \<noteq> None \<or>
            (\<exists>p. tail = [Print Line_145 p]) \<and> fst (main w e) \<noteq> None \<or>
            (\<exists>p q. tail = [Print Line_145 p, Print Line_146 q]))"
proof -
  obtain a where a: "main_agent (at_run w e) = Some a" "name a = ''main_agent''"
    using at_run_names [OF key] by blast
  obtain res s' where call: "Runner_run_sync w a run_input 2 (at_run w e) = (res, s')"
    by (cases "Runner_run_sync w a run_input 2 (at_run w e)")
  obtain evs out where "snd (Runner_run_sync w a run_input 2 (at_run w e)) =
      (at_run w e)\<lparr>trace := trace (at_run w e) @ Call_run_sync a run_input 2 # evs,
                   console := console (at_run w e) @ out\<rparr>"
    and evs: "\<forall>ev \<in> set evs. \<exists>args. ev = Print Line_95 args"
    using Runner_run_sync_effect by blast
  with call have s': "trace s' = trace (at_run w e) @ Call_run_sync a run_input 2 # evs"
    by simp
  have "\<exists>tail. trace (snd (main w e)) = trace s' @ tail \<and>
      (tail = [] \<and> fst (main w e) \<noteq> None \<or>
       (\<exists>p. tail = [Print Line_145 p]) \<and> fst (main w e) \<noteq> None \<or>
       (\<exists>p q. tail = [Print Line_145 p, Print Line_146 q]))"
  proof (cases res)
    case (Inl x)
    then have "main w e = (Some x, s')"
      using main_when_run_raises(1) [OF key a(1)] call by simp
    then show ?thesis
      by simp
  next
    case (Inr r)
    then have whole: "main w e = exec [line_145 w, line_146 w] (s'\<lparr>result := Some r\<rparr>)"
      using main_when_run_returns(1) [OF key a(1)] call by simp
    have bound: "result (s'\<lparr>result := Some r\<rparr>) = Some r"
      by simp
    show ?thesis
      unfolding whole report_outcome [OF bound]
      by (simp split: sum.splits)
  qed
  then obtain tail where "trace (snd (main w e)) = trace s' @ tail"
    and "tail = [] \<and> fst (main w e) \<noteq> None \<or>
       (\<exists>p. tail = [Print Line_145 p]) \<and> fst (main w e) \<noteq> None \<or>
       (\<exists>p q. tail = [Print Line_145 p, Print Line_146 q])"
    by blast
  with a evs s' show ?thesis
    by (intro exI [of _ a] exI [of _ evs] exI [of _ tail]) simp
qed

text \<open>The prints of line 95 are no constructor, no call of the run and no report.\<close>

lemma line_95_prints:
  assumes "\<forall>ev \<in> set evs. \<exists>args. ev = Print Line_95 args"
  shows "filter is_run_call evs = []" and "filter is_report evs = []"
    and "filter is_new_agent evs = []" and "filter is_new_handoff evs = []"
    and "map step_of evs = replicate (length evs) Blocking_run"
  using assms by (induction evs) auto

subsection \<open>The worlds\<close>

text \<open>What \<open>rich.print\<close> does in these worlds with the texts they print.\<close>

lemma rich_console_payload:
  "rich_console [rocket @ '' Received handoff input:'', ''{\"input\": \"refund for order 7\"}''] =
     Inr (rocket @ '' Received handoff input: {\"input\": \"refund for order 7\"}'' @ [newline])"
  by (simp add: rich_console_def rocket_def)

lemma rich_console_closing_tag:
  "rich_console [rocket @ '' Received handoff input:'', ''{\"input\": \"[/]\"}''] =
     Inl (Exn ''MarkupError''
       (''closing tag '' @ [CHR 0x27] @ ''[/]'' @ [CHR 0x27] @ '' at position 11 has nothing to close''))"
proof -
  have label: "closing_tag_pos (rocket @ '' Received handoff input:'') = None"
    by (simp add: rocket_def)
  have pos: "closing_tag_pos ''{\"input\": \"[/]\"}'' = Some 11"
    by (simp add: eval_nat_numeral)
  have dec: "decimal 11 = ''11''"
    by (simp add: decimal.simps [of 11] decimal.simps [of "Suc 0"])
  show ?thesis
    by (simp add: rich_console_def label pos dec MarkupError_def del: closing_tag_pos.simps)
qed

lemma rich_console_answers:
  "rich_console [check_mark @ '' Final output:'', ''Your refund is on its way.''] =
     Inr (check_mark @ '' Final output: Your refund is on its way.'' @ [newline])"
  "rich_console [check_mark @ '' Final output:'', ''Sure.'' @ [newline] @ ''Your refund is on its way.''] =
     Inr (check_mark @ '' Final output: Sure.'' @ [newline] @ ''Your refund is on its way.'' @ [newline])"
  "rich_console [robot @ '' Last agent name:'', ''refund_agent''] =
     Inr (robot @ '' Last agent name: refund_agent'' @ [newline])"
  by (simp_all add: rich_console_def check_mark_def robot_def newline_def)

text \<open>A run that hands over, with a payload \<open>rich.print\<close> writes.\<close>

lemma handing_over_run:
  assumes key: "truthy (load_dotenv w e ''GEMINI_API_KEY'')"
    and run: "run_sync w = (\<lambda>a i n. handing_over payload answer a)"
    and writes: "rich_print w [rocket @ '' Received handoff input:'', payload] = Inr out"
  shows "\<exists>a r. main_agent (at_run w e) = Some a \<and> refund_agent (at_run w e) = Some r \<and>
           name r = ''refund_agent'' \<and>
           Runner_run_sync w a run_input 2 (at_run w e) =
             (Inr \<lparr>final_output = answer, last_agent = r\<rparr>,
              (at_run w e)
                \<lparr>trace := trace (at_run w e) @
                   [Call_run_sync a run_input 2,
                    Print Line_95 [rocket @ '' Received handoff input:'', payload]],
                 console := console (at_run w e) @ out\<rparr>)"
proof -
  obtain b r h a where names: "refund_agent (at_run w e) = Some r" "name r = ''refund_agent''"
    "main_agent (at_run w e) = Some a" "handoffs a = [To_agent b, To_handoff h]"
    using at_run_names [OF key] by blast
  have fns: "is_enabled h = Fn_my_enable_func" "on_invoke_handoff h = Fn_my_invoke_function"
    by (cases "is_enabled h", simp) (cases "on_invoke_handoff h", simp)
  have bound: "refund_agent (emit (Call_run_sync a run_input 2) (at_run w e)) = Some r"
    using names(1) by (simp add: emit_def)
  have "Runner_run_sync w a run_input 2 (at_run w e) =
      (Inr \<lparr>final_output = answer, last_agent = r\<rparr>,
       (at_run w e)
         \<lparr>trace := trace (at_run w e) @
            [Call_run_sync a run_input 2,
             Print Line_95 [rocket @ '' Received handoff input:'', payload]],
          console := console (at_run w e) @ out\<rparr>)"
    by (simp add: Runner_run_sync_def run handing_over_def names(4) fns my_enable_func_def
        my_invoke_function_returns [OF writes bound])
      (simp add: emit_def)
  with names show ?thesis
    by blast
qed

lemma good_run:
  "\<exists>a r. main_agent (at_run good_world empty_env) = Some a \<and>
         refund_agent (at_run good_world empty_env) = Some r \<and> name r = ''refund_agent'' \<and>
         Runner_run_sync good_world a run_input 2 (at_run good_world empty_env) =
           (Inr \<lparr>final_output = ''Your refund is on its way.'', last_agent = r\<rparr>,
            (at_run good_world empty_env)
              \<lparr>trace := trace (at_run good_world empty_env) @
                 [Call_run_sync a run_input 2,
                  Print Line_95 [rocket @ '' Received handoff input:'',
                                 ''{\"input\": \"refund for order 7\"}'']],
               console := console (at_run good_world empty_env) @
                 rocket @ '' Received handoff input: {\"input\": \"refund for order 7\"}'' @
                 [newline]\<rparr>)"
proof -
  have "run_sync good_world =
      (\<lambda>a i n. handing_over ''{\"input\": \"refund for order 7\"}'' ''Your refund is on its way.'' a)"
    by (simp add: good_world_def)
  moreover have "rich_print good_world
      [rocket @ '' Received handoff input:'', ''{\"input\": \"refund for order 7\"}''] =
      Inr (rocket @ '' Received handoff input: {\"input\": \"refund for order 7\"}'' @ [newline])"
    by (simp add: good_world_def rich_console_payload)
  ultimately show ?thesis
    by (rule handing_over_run [OF key_good])
qed


lemma failing_run:
  "Runner_run_sync failing_world a run_input 2 s =
     (Inl (Exn ''MaxTurnsExceeded'' ''Max turns (2) exceeded''),
      s\<lparr>trace := trace s @ [Call_run_sync a run_input 2]\<rparr>)"
  by (simp add: Runner_run_sync_def failing_world_def emit_def)

subsection \<open>The function that is awaited at a hand-off\<close>

text \<open>
  Claim C3: \<open>my_invoke_function\<close> does not return the refund agent for every input. It
  prints through \<open>rich.print\<close>, which reads the input as console markup. With the input
  \<open>{"input": "[/]"}\<close>, in a state where \<open>refund_agent\<close> is bound to the agent named
  "refund_agent", the print raises \<open>MarkupError\<close> (the closing tag at position 11 has
  nothing to close): the function ends at line 95 with that exception, writes nothing and
  returns no agent. With the input \<open>{"input": "refund for order 7"}\<close> in the same state
  it returns the refund agent.
\<close>

theorem my_invoke_function_raises_on_closing_tag:
  "map_option name (refund_agent (at_run good_world empty_env)) = Some ''refund_agent'' \<and>
   fst (my_invoke_function good_world () ''{\"input\": \"[/]\"}'' (at_run good_world empty_env)) =
     Inl (Exn ''MarkupError''
       (''closing tag '' @ [CHR 0x27] @ ''[/]'' @ [CHR 0x27] @ '' at position 11 has nothing to close'')) \<and>
   console (snd (my_invoke_function good_world () ''{\"input\": \"[/]\"}''
     (at_run good_world empty_env))) = [] \<and>
   map_sum exn_class name
     (fst (my_invoke_function good_world () ''{\"input\": \"refund for order 7\"}''
        (at_run good_world empty_env))) = Inr ''refund_agent''"
proof -
  obtain r where r: "refund_agent (at_run good_world empty_env) = Some r" "name r = ''refund_agent''"
    using at_run_names [OF key_good] by blast
  have raises: "rich_print good_world [rocket @ '' Received handoff input:'', ''{\"input\": \"[/]\"}''] =
      Inl (Exn ''MarkupError''
        (''closing tag '' @ [CHR 0x27] @ ''[/]'' @ [CHR 0x27] @ '' at position 11 has nothing to close''))"
    by (simp add: good_world_def rich_console_closing_tag)
  have writes: "rich_print good_world
      [rocket @ '' Received handoff input:'', ''{\"input\": \"refund for order 7\"}''] =
      Inr (rocket @ '' Received handoff input: {\"input\": \"refund for order 7\"}'' @ [newline])"
    by (simp add: good_world_def rich_console_payload)
  show ?thesis
    using r at_run_fresh(2) [OF key_good]
    by (simp add: my_invoke_function_raises [OF raises] my_invoke_function_returns [OF writes r(1)])
qed

subsection \<open>The run\<close>

text \<open>
  Claim C6: an exception that \<open>Runner.run_sync\<close> raises leaves the script as it is. With a
  key in the environment the script reaches line 138; if the run raises \<open>x\<close> there, the
  script ends with \<open>x\<close> itself and in the state the run left: the run was called once and
  not again, \<open>result\<close> is unbound and no report was printed.
\<close>

theorem run_failure_propagates:
  assumes key: "truthy (load_dotenv w e ''GEMINI_API_KEY'')"
    and agent: "main_agent (at_run w e) = Some a"
    and raises: "Runner_run_sync w a run_input 2 (at_run w e) = (Inl x, s')"
  shows "main w e = (Some x, s') \<and>
         result (snd (main w e)) = None \<and>
         filter is_run_call (trace (snd (main w e))) = [Call_run_sync a run_input 2] \<and>
         filter is_report (trace (snd (main w e))) = []"
proof -
  have whole: "main w e = (Some x, s')"
    by (rule main_when_run_raises(1) [OF key agent raises])
  obtain evs out where "snd (Runner_run_sync w a run_input 2 (at_run w e)) =
      (at_run w e)\<lparr>trace := trace (at_run w e) @ Call_run_sync a run_input 2 # evs,
                   console := console (at_run w e) @ out\<rparr>"
    and evs: "\<forall>ev \<in> set evs. \<exists>args. ev = Print Line_95 args"
    using Runner_run_sync_effect by blast
  with raises have s': "s' = (at_run w e)\<lparr>trace := trace (at_run w e) @ Call_run_sync a run_input 2 # evs,
                   console := console (at_run w e) @ out\<rparr>"
    by simp
  have before: "filter is_run_call (trace (at_run w e)) = []"
    "filter is_report (trace (at_run w e)) = []"
    using at_run_trace [OF key] by auto
  show ?thesis
    by (simp add: whole s' at_run_fresh(1) [OF key] before line_95_prints(1,2) [OF evs])
qed

theorem run_failure_propagates_witness:
  "truthy (load_dotenv failing_world empty_env ''GEMINI_API_KEY'') \<and>
   (\<exists>a. main_agent (at_run failing_world empty_env) = Some a \<and>
      Runner_run_sync failing_world a run_input 2 (at_run failing_world empty_env) =
        (Inl (Exn ''MaxTurnsExceeded'' ''Max turns (2) exceeded''),
         (at_run failing_world empty_env)
           \<lparr>trace := trace (at_run failing_world empty_env) @ [Call_run_sync a run_input 2]\<rparr>) \<and>
      main failing_world empty_env =
        (Some (Exn ''MaxTurnsExceeded'' ''Max turns (2) exceeded''),
         (at_run failing_world empty_env)
           \<lparr>trace := trace (at_run failing_world empty_env) @ [Call_run_sync a run_input 2]\<rparr>) \<and>
      result (snd (main failing_world empty_env)) = None)"
proof -
  obtain a where a: "main_agent (at_run failing_world empty_env) = Some a"
    using at_run_names [OF key_failing] by blast
  note raises = failing_run [of a "at_run failing_world empty_env"]
  show ?thesis
    using key_failing a raises run_failure_propagates [OF key_failing a raises] by blast
qed



subsection \<open>The report\<close>

text \<open>The script after a run that returned, when \<open>rich.print\<close> writes both reports.\<close>

lemma report_after_run:
  assumes key: "truthy (load_dotenv w e ''GEMINI_API_KEY'')"
    and agent: "main_agent (at_run w e) = Some a"
    and returns: "Runner_run_sync w a run_input 2 (at_run w e) = (Inr r, s')"
    and first: "rich_print w [check_mark @ '' Final output:'', final_output r] = Inr t1"
    and second: "rich_print w [robot @ '' Last agent name:'', name (last_agent r)] = Inr t2"
  shows "fst (main w e) = None"
    and "events_after_run w e =
           [Print Line_145 [check_mark @ '' Final output:'', final_output r],
            Print Line_146 [robot @ '' Last agent name:'', name (last_agent r)]]"
    and "written_after_run w e = t1 @ t2"
proof -
  have bound: "result (s'\<lparr>result := Some r\<rparr>) = Some r"
    by simp
  have whole: "main w e =
      (None,
       s'\<lparr>result := Some r,
          trace := trace s' @
            [Print Line_145 [check_mark @ '' Final output:'', final_output r],
             Print Line_146 [robot @ '' Last agent name:'', name (last_agent r)]],
          console := console s' @ t1 @ t2\<rparr>)"
    by (simp only: main_when_run_returns(1) [OF key agent returns] report_outcome [OF bound]
        first second sum.case) simp
  note run = main_when_run_returns(2) [OF key agent returns]
  show "fst (main w e) = None"
    by (simp add: whole)
  show "events_after_run w e =
           [Print Line_145 [check_mark @ '' Final output:'', final_output r],
            Print Line_146 [robot @ '' Last agent name:'', name (last_agent r)]]"
    by (simp add: events_after_run_def whole run)
  show "written_after_run w e = t1 @ t2"
    by (simp add: written_after_run_def whole run)
qed





subsection \<open>The order of the steps\<close>

text \<open>Events of one step that follow an event of that step add no step.\<close>

lemma remdups_adj_repeated:
  "remdups_adj (xs @ x # replicate n x @ ys) = remdups_adj (xs @ x # ys)"
proof -
  have inner: "remdups_adj (x # replicate n x @ ys) = remdups_adj (x # ys)"
    by (induction n) simp_all
  have "remdups_adj (xs @ x # replicate n x @ ys) =
      remdups_adj (xs @ [x]) @ tl (remdups_adj (x # replicate n x @ ys))"
    by (rule remdups_adj_append)
  also have "\<dots> = remdups_adj (xs @ [x]) @ tl (remdups_adj (x # ys))"
    by (simp only: inner)
  also have "\<dots> = remdups_adj (xs @ x # ys)"
    by (rule remdups_adj_append [symmetric])
  finally show ?thesis .
qed

lemma steps_through_run:
  assumes "\<forall>ev \<in> set evs. \<exists>args. ev = Print Line_95 args"
  shows "steps_of (pre @ Call_run_sync a i n # evs @ tail) =
           remdups_adj (map step_of pre @ Blocking_run # map step_of tail)"
  by (simp add: steps_of_def line_95_prints(5) [OF assms] remdups_adj_repeated
      del: remdups_adj.simps)

lemma line_95_no_construction:
  assumes "\<forall>ev \<in> set evs. \<exists>args. ev = Print Line_95 args"
  shows "filter is_new_agent_or_handoff evs = []"
  using assms by (induction evs) (auto simp: is_new_agent_or_handoff_def)

text \<open>
  Claim C7, as the code has it. The script goes through the steps in the order load
  credentials, construct the client, construct the model handle, construct the agents and
  the hand-off object, the blocking run, the two prints: whatever the world, the steps of
  its trace are a beginning of that list, no step is taken up again and none comes before
  an earlier one. When the script completes, they are the whole list, each step once; the
  construction step builds three agents and one hand-off object, the run is called
  once and the report is two prints.
\<close>

theorem steps_in_order:
  "prefix (steps_of (trace (snd (main w e)))) all_steps \<and>
   (fst (main w e) = None \<longrightarrow>
      steps_of (trace (snd (main w e))) = all_steps \<and>
      length (filter is_new_agent (trace (snd (main w e)))) = 3 \<and>
      length (filter is_new_handoff (trace (snd (main w e)))) = 1 \<and>
      length (filter is_run_call (trace (snd (main w e)))) = 1 \<and>
      length (filter is_report (trace (snd (main w e)))) = 2)"
proof (cases "truthy (load_dotenv w e ''GEMINI_API_KEY'')")
  case False
  then show ?thesis
    by (simp add: main_without_key steps_of_def all_steps_def)
next
  case True
  obtain a evs tail where a: "main_agent (at_run w e) = Some a"
    and tr: "trace (snd (main w e)) = trace (at_run w e) @ Call_run_sync a run_input 2 # evs @ tail"
    and evs: "\<forall>ev \<in> set evs. \<exists>args. ev = Print Line_95 args"
    and tail: "tail = [] \<and> fst (main w e) \<noteq> None \<or>
            (\<exists>p. tail = [Print Line_145 p]) \<and> fst (main w e) \<noteq> None \<or>
            (\<exists>p q. tail = [Print Line_145 p, Print Line_146 q])"
    using main_shape [OF True] by blast
  obtain c m b r cls h a' where before: "trace (at_run w e) =
             [Call_load_dotenv, Call_enable_verbose_stdout_logging,
              Call_set_tracing_disabled True, Call_getenv ''GEMINI_API_KEY'',
              New_AsyncOpenAI c, New_OpenAIChatCompletionsModel m,
              New_Agent b, New_Agent r, Call_model_json_schema cls,
              New_Handoff h, New_Agent a']"
    using at_run_trace [OF True] by blast
  have steps: "steps_of (trace (snd (main w e))) =
      remdups_adj (map step_of (trace (at_run w e)) @ Blocking_run # map step_of tail)"
    unfolding tr by (rule steps_through_run [OF evs])
  have counts: "length (filter is_new_agent (trace (snd (main w e)))) = 3 + length (filter is_new_agent tail)"
    "length (filter is_new_handoff (trace (snd (main w e)))) = 1 + length (filter is_new_handoff tail)"
    "length (filter is_run_call (trace (snd (main w e)))) = 1 + length (filter is_run_call tail)"
    "length (filter is_report (trace (snd (main w e)))) = length (filter is_report tail)"
    by (simp_all add: tr before line_95_prints(1,2,3,4) [OF evs])
  from tail show ?thesis
  proof (elim disjE conjE exE)
    assume stopped: "tail = []" and raised: "fst (main w e) \<noteq> None"
    have "prefix (steps_of (trace (snd (main w e)))) all_steps"
      by (simp add: steps before all_steps_def stopped)
    with raised show ?thesis
      by blast
  next
    fix p
    assume stopped: "tail = [Print Line_145 p]" and raised: "fst (main w e) \<noteq> None"
    have "prefix (steps_of (trace (snd (main w e)))) all_steps"
      by (simp add: steps before all_steps_def stopped)
    with raised show ?thesis
      by blast
  next
    fix p q
    assume "tail = [Print Line_145 p, Print Line_146 q]"
    then show ?thesis
      by (simp add: steps counts before all_steps_def)
  qed
qed

lemma good_world_completes:
  "fst (main good_world empty_env) = None"
proof -
  obtain a r where a: "main_agent (at_run good_world empty_env) = Some a"
    and r: "name r = ''refund_agent''"
    and run: "Runner_run_sync good_world a run_input 2 (at_run good_world empty_env) =
           (Inr \<lparr>final_output = ''Your refund is on its way.'', last_agent = r\<rparr>,
            (at_run good_world empty_env)
              \<lparr>trace := trace (at_run good_world empty_env) @
                 [Call_run_sync a run_input 2,
                  Print Line_95 [rocket @ '' Received handoff input:'',
                                 ''{\"input\": \"refund for order 7\"}'']],
               console := console (at_run good_world empty_env) @
                 rocket @ '' Received handoff input: {\"input\": \"refund for order 7\"}'' @
                 [newline]\<rparr>)"
    using good_run by blast
  have first: "rich_print good_world
      [check_mark @ '' Final output:'',
       final_output \<lparr>final_output = ''Your refund is on its way.'', last_agent = r\<rparr>] =
      Inr (check_mark @ '' Final output: Your refund is on its way.'' @ [newline])"
    by (simp add: good_world_def rich_console_answers)
  have second: "rich_print good_world
      [robot @ '' Last agent name:'',
       name (last_agent \<lparr>final_output = ''Your refund is on its way.'', last_agent = r\<rparr>)] =
      Inr (robot @ '' Last agent name: refund_agent'' @ [newline])"
    by (simp add: good_world_def r rich_console_answers)
  show ?thesis
    by (rule report_after_run(1) [OF key_good a run first second])
qed

theorem steps_in_order_witness:
  "fst (main good_world empty_env) = None \<and>
   steps_of (trace (snd (main good_world empty_env))) =
     [Load_credentials, Construct_client, Construct_model, Construct_agents,
      Blocking_run, Print_lines] \<and>
   length (filter is_new_agent (trace (snd (main good_world empty_env)))) = 3 \<and>
   length (filter is_new_handoff (trace (snd (main good_world empty_env)))) = 1 \<and>
   length (filter is_run_call (trace (snd (main good_world empty_env)))) = 1 \<and>
   length (filter is_report (trace (snd (main good_world empty_env)))) = 2"
  using good_world_completes steps_in_order [of good_world empty_env]
  by (simp add: all_steps_def)

text \<open>
  The claim as worded has three agent and hand-off objects constructed. The script
  constructs four: the agents of lines 59, 71 and 126 and the hand-off object of line 111.
\<close>

theorem four_agent_and_handoff_objects:
  "fst (main good_world empty_env) = None \<and>
   length (filter is_new_agent_or_handoff (trace (snd (main good_world empty_env)))) = 4"
proof -
  obtain a evs tail where
    tr: "trace (snd (main good_world empty_env)) =
      trace (at_run good_world empty_env) @ Call_run_sync a run_input 2 # evs @ tail"
    and evs: "\<forall>ev \<in> set evs. \<exists>args. ev = Print Line_95 args"
    and tail: "tail = [] \<and> fst (main good_world empty_env) \<noteq> None \<or>
            (\<exists>p. tail = [Print Line_145 p]) \<and> fst (main good_world empty_env) \<noteq> None \<or>
            (\<exists>p q. tail = [Print Line_145 p, Print Line_146 q])"
    using main_shape [OF key_good] by blast
  obtain c m b r cls h a' where before: "trace (at_run good_world empty_env) =
             [Call_load_dotenv, Call_enable_verbose_stdout_logging,
              Call_set_tracing_disabled True, Call_getenv ''GEMINI_API_KEY'',
              New_AsyncOpenAI c, New_OpenAIChatCompletionsModel m,
              New_Agent b, New_Agent r, Call_model_json_schema cls,
              New_Handoff h, New_Agent a']"
    using at_run_trace [OF key_good] by blast
  have "filter is_new_agent_or_handoff tail = []"
    using tail by (auto simp: is_new_agent_or_handoff_def)
  then have "length (filter is_new_agent_or_handoff (trace (snd (main good_world empty_env)))) = 4"
    by (simp add: tr before line_95_no_construction [OF evs] is_new_agent_or_handoff_def)
  with good_world_completes show ?thesis
    by simp
qed

subsection \<open>The schema of the hand-off\<close>

text \<open>A payload with a key other than \<open>input\<close> has an entry the schema does not allow.\<close>

lemma other_key_rejected:
  assumes props: "schema_properties d = [(''input'', sub)]"
    and closed: "map_of d ''additionalProperties'' = Some (JBool False)"
    and present: "has_key payload k"
    and other: "k \<noteq> ''input''"
  shows "\<not> validates d (JObj payload)"
proof -
  from present obtain v where entry: "(k, v) \<in> set payload"
    by (auto simp: has_key_def dest: map_of_SomeD)
  have "\<not> has_key (schema_properties d) (fst (k, v))"
    using other by (simp add: props has_key_def)
  with entry have "\<exists>kv \<in> set payload. \<not> has_key (schema_properties d) (fst kv)"
    by blast
  then have "\<not> additional_ok d payload"
    using closed by (simp add: additional_ok_def list_all_iff)
  then show ?thesis
    by simp
qed

text \<open>The schema of lines 82-87 and the payloads with the one key \<open>input\<close>.\<close>

lemma refund_schema_accepts:
  fixes d :: dict
  defines "d \<equiv> [(''properties'',
                   JObj [(''input'', JObj [(''title'', JStr ''Input''), (''type'', JStr ''string'')])]),
                 (''required'', JArr [JStr ''input'']),
                 (''title'', JStr ''Model_refund''),
                 (''type'', JStr ''object''),
                 (''additionalProperties'', JBool False)]"
  shows "schema_properties d =
           [(''input'', JObj [(''title'', JStr ''Input''), (''type'', JStr ''string'')])]"
    and "map_of d ''additionalProperties'' = Some (JBool False)"
    and "validates d (JObj [(''input'', v)]) = (\<exists>x. v = JStr x)"
proof -
  show "schema_properties d =
           [(''input'', JObj [(''title'', JStr ''Input''), (''type'', JStr ''string'')])]"
    by (simp add: d_def schema_properties_def)
  show "map_of d ''additionalProperties'' = Some (JBool False)"
    by (simp add: d_def)
  show "validates d (JObj [(''input'', v)]) = (\<exists>x. v = JStr x)"
    by (cases v)
      (simp_all add: d_def schema_properties_def type_ok_def required_ok_def has_key_def
        property_ok_def additional_ok_def)
qed

text \<open>
  Claim C2: with a key in the environment, the schema the script builds from the class of
  line 82 and gives to the hand-off object has exactly one property, named \<open>input\<close>, of
  type string, and has \<open>additionalProperties\<close> set to false. An object with the one key
  \<open>input\<close> is valid against it exactly when the value is a string, and every object that
  has any key other than \<open>input\<close> is rejected.
\<close>

theorem refund_schema_rejects_other_keys:
  assumes key: "truthy (load_dotenv w e ''GEMINI_API_KEY'')"
  shows "\<exists>d h. my_schema (snd (main w e)) = Some d \<and>
           refund_agent_handoff (snd (main w e)) = Some h \<and>
           input_json_schema h = d \<and>
           schema_properties d =
             [(''input'', JObj [(''title'', JStr ''Input''), (''type'', JStr ''string'')])] \<and>
           map_of d ''additionalProperties'' = Some (JBool False) \<and>
           (\<forall>v. validates d (JObj [(''input'', v)]) = (\<exists>x. v = JStr x)) \<and>
           (\<forall>payload k. has_key payload k \<and> k \<noteq> ''input'' \<longrightarrow> \<not> validates d (JObj payload))"
proof -
  obtain h where h: "refund_agent_handoff (at_run w e) = Some h"
    "my_schema (at_run w e) = Some (input_json_schema h)"
    and d: "input_json_schema h =
             [(''properties'',
                 JObj [(''input'', JObj [(''title'', JStr ''Input''), (''type'', JStr ''string'')])]),
              (''required'', JArr [JStr ''input'']),
              (''title'', JStr ''Model_refund''),
              (''type'', JStr ''object''),
              (''additionalProperties'', JBool False)]"
    using at_run_schema [OF key] by blast
  have final: "my_schema (snd (main w e)) = Some (input_json_schema h)"
    "refund_agent_handoff (snd (main w e)) = Some h"
    by (simp_all add: main_from_run [OF key] run_and_report_keeps h)
  have props: "schema_properties (input_json_schema h) =
      [(''input'', JObj [(''title'', JStr ''Input''), (''type'', JStr ''string'')])]"
    unfolding d by (rule refund_schema_accepts(1))
  have closed: "map_of (input_json_schema h) ''additionalProperties'' = Some (JBool False)"
    unfolding d by (rule refund_schema_accepts(2))
  have typed: "\<forall>v. validates (input_json_schema h) (JObj [(''input'', v)]) = (\<exists>x. v = JStr x)"
    unfolding d by (intro allI) (rule refund_schema_accepts(3))
  have others: "\<forall>payload k. has_key payload k \<and> k \<noteq> ''input'' \<longrightarrow>
      \<not> validates (input_json_schema h) (JObj payload)"
    using other_key_rejected [OF props closed] by blast
  from final props closed typed others show ?thesis
    by blast
qed

theorem refund_schema_witness:
  "truthy (load_dotenv good_world empty_env ''GEMINI_API_KEY'') \<and>
   (\<exists>d. my_schema (snd (main good_world empty_env)) = Some d \<and>
      validates d (JObj [(''input'', JStr ''order 7'')]) \<and>
      has_key [(''input'', JStr ''order 7''), (''amount'', JNum 3)] ''amount'' \<and>
      \<not> validates d (JObj [(''input'', JStr ''order 7''), (''amount'', JNum 3)]) \<and>
      \<not> validates d (JObj [(''input'', JNum 3)]))"
proof -
  obtain d where d: "my_schema (snd (main good_world empty_env)) = Some d"
    and typed: "\<forall>v. validates d (JObj [(''input'', v)]) = (\<exists>x. v = JStr x)"
    and others: "\<forall>payload k. has_key payload k \<and> k \<noteq> ''input'' \<longrightarrow> \<not> validates d (JObj payload)"
    using refund_schema_rejects_other_keys [OF key_good] by blast
  have present: "has_key [(''input'', JStr ''order 7''), (''amount'', JNum 3)] ''amount''"
    by (simp add: has_key_def)
  have differs: "''amount'' \<noteq> ''input''"
    by simp
  have rejected: "\<not> validates d (JObj [(''input'', JStr ''order 7''), (''amount'', JNum 3)])"
    using others present differs by blast
  have accepted: "validates d (JObj [(''input'', JStr ''order 7'')])"
    using typed by blast
  have mistyped: "\<not> validates d (JObj [(''input'', JNum 3)])"
    using typed by simp
  from key_good d present rejected accepted mistyped show ?thesis
    by blast
qed

end
